theory Spec2Isabelle
  imports Complex_Main
begin

section \<open>Data model\<close>

text \<open>
  The controller is written in Python. Its numbers are floats; the model computes with
  exact reals, so every statement below is about the arithmetic the code writes down,
  not about rounding. Node labels are the strings the code uses as graph nodes
  (\<^verbatim>\<open>str(dpid)\<close> for switches, endpoint names for hosts).

  The classes \<^verbatim>\<open>Link\<close> and \<^verbatim>\<open>RTAttributes\<close> live in
  \<^verbatim>\<open>common/rt_attributes.py\<close>; the records below carry the fields the
  analysis, the routing engine and the controller read and write.
\<close>

type_synonym node = string

record Link =
  src :: node
  dst :: node
  port_out :: int
  prop_delay :: real
  switch_delay :: real
  proc_delay :: real
  queuing_delay :: real
  jitter :: real
  bw_capacity :: real
  bw_used :: real

text \<open>The priority field \<^verbatim>\<open>pi\<close> is called \<open>pi_prio\<close>: \<open>pi\<close> is the circle constant.\<close>

record RTAttributes =
  ft_i :: string
  qi :: int
  ci :: real
  pi_prio :: int
  ti :: real
  di :: real
  bwi :: real
  src_ip :: node
  dst_ips :: "node list"
  broker_ips :: "node list"
  route_links :: "Link list"
  multicast_group_id :: int
  processing_delay :: real
  measured_jitter :: real
  num_hops :: nat

section \<open>The graph library\<close>

text \<open>
  The code builds \<^verbatim>\<open>networkx\<close> graphs and asks the library for paths. A graph is
  modelled by what \<^verbatim>\<open>add_edge\<close> leaves behind: the nodes in the order they
  first appeared and the edges with their attributes, an edge added again keeping its
  place and taking the new attributes. In an undirected graph \<open>(u, v)\<close> and
  \<open>(v, u)\<close> are the same edge.
\<close>

record 'a nx_graph =
  directed :: bool
  nodes :: "node list"
  edges :: "((node \<times> node) \<times> 'a) list"

definition empty_graph :: "bool \<Rightarrow> 'a nx_graph" where
  "empty_graph d = \<lparr>directed = d, nodes = [], edges = []\<rparr>"

definition same_edge :: "bool \<Rightarrow> node \<times> node \<Rightarrow> node \<times> node \<Rightarrow> bool" where
  "same_edge d e e' = (e = e' \<or> (\<not> d \<and> e = (snd e', fst e')))"

definition add_node :: "node \<Rightarrow> node list \<Rightarrow> node list" where
  "add_node n ns = (if n \<in> set ns then ns else ns @ [n])"

fun upd_edge ::
  "bool \<Rightarrow> node \<times> node \<Rightarrow> 'a \<Rightarrow> ((node \<times> node) \<times> 'a) list \<Rightarrow> ((node \<times> node) \<times> 'a) list"
where
  "upd_edge d e a [] = [(e, a)]"
| "upd_edge d e a (x # xs) =
     (if same_edge d e (fst x) then (fst x, a) # xs else x # upd_edge d e a xs)"

definition add_edge :: "'a nx_graph \<Rightarrow> node \<Rightarrow> node \<Rightarrow> 'a \<Rightarrow> 'a nx_graph" where
  "add_edge G u v a =
     G\<lparr>nodes := add_node v (add_node u (nodes G)),
       edges := upd_edge (directed G) (u, v) a (edges G)\<rparr>"

definition get_edge :: "'a nx_graph \<Rightarrow> node \<Rightarrow> node \<Rightarrow> 'a option" where
  "get_edge G u v =
     map_option snd (find (\<lambda>x. same_edge (directed G) (u, v) (fst x)) (edges G))"

definition has_edge :: "'a nx_graph \<Rightarrow> node \<Rightarrow> node \<Rightarrow> bool" where
  "has_edge G u v = (get_edge G u v \<noteq> None)"

definition has_node :: "'a nx_graph \<Rightarrow> node \<Rightarrow> bool" where
  "has_node G n = (n \<in> set (nodes G))"

text \<open>
  The attributes the routing engine stores on an edge
  (\<^verbatim>\<open>G.add_edge(link.src, link.dst, weight=final_cost, link_obj=link)\<close>).
\<close>

record edge_data =
  weight :: real
  link_obj :: Link

text \<open>
  The library's searches are parameters of the model: what they return on a graph
  (which of several equally good paths, which approximate tree) is the library's
  business, and the theorems below hold for every library. A call that raises returns
  the exception on the left.
\<close>

datatype nx_exception = NetworkXNoPath | NodeNotFound | NetworkXError

datatype py_exception = ZeroDivisionError | OverflowError | ValueError | NetworkX nx_exception

record nx_lib =
  shortest_path :: "Link nx_graph \<Rightarrow> node \<Rightarrow> node \<Rightarrow> nx_exception + node list"
  dijkstra_path :: "edge_data nx_graph \<Rightarrow> node \<Rightarrow> node \<Rightarrow> nx_exception + node list"
  dijkstra_path_length :: "edge_data nx_graph \<Rightarrow> node \<Rightarrow> node \<Rightarrow> nx_exception + real"
  steiner_tree :: "edge_data nx_graph \<Rightarrow> node list \<Rightarrow> nx_exception + (node \<times> node) list"

text \<open>
  Turning a node path into the attributes of its edges, as both
  \<^verbatim>\<open>_nodes_to_links\<close> and the loop in \<^verbatim>\<open>_get_max_branch_wcrt\<close> do:
  \<^verbatim>\<open>
  for i in range(len(nodes)-1):
      u, v = nodes[i], nodes[i+1]
      if G.has_edge(u, v):
          links.append(G[u][v]['link_obj'])
  \<close>
\<close>

fun path_edges :: "'a nx_graph \<Rightarrow> node list \<Rightarrow> 'a list" where
  "path_edges G (u # v # rest) =
     (case get_edge G u v of
        Some a \<Rightarrow> a # path_edges G (v # rest)
      | None \<Rightarrow> path_edges G (v # rest))"
| "path_edges G [u] = []"
| "path_edges G [] = []"

section \<open>Schedulability analysis\<close>

subsection \<open>Interfering flows\<close>

text \<open>
  \<^verbatim>\<open>
  for flow in all_flows:
      if flow.ft_i == subject_flow.ft_i: continue
      shares_link = any(l.src == link.src and l.dst == link.dst for l in flow.route_links)
      if shares_link and flow.pi >= subject_flow.pi:
          interfering.append(flow)
  \<close>
\<close>

definition shares_link :: "Link \<Rightarrow> RTAttributes \<Rightarrow> bool" where
  "shares_link link flow = list_ex (\<lambda>l. src l = src link \<and> dst l = dst link) (route_links flow)"

definition get_interfering_flows_on_link ::
  "Link \<Rightarrow> RTAttributes \<Rightarrow> RTAttributes list \<Rightarrow> RTAttributes list"
where
  "get_interfering_flows_on_link link subject_flow all_flows =
     filter (\<lambda>flow. ft_i flow \<noteq> ft_i subject_flow \<and> shares_link link flow
                    \<and> pi_prio flow \<ge> pi_prio subject_flow) all_flows"

subsection \<open>Trajectory approach\<close>

text \<open>
  \<^verbatim>\<open>math.ceil(flow.di / f_j.ti) * f_j.ci\<close> raises \<^verbatim>\<open>ZeroDivisionError\<close> when
  the period is zero; the result \<open>None\<close> stands for that exception, which leaves
  \<^verbatim>\<open>_compute_path_wcrt\<close> and is caught by the bare \<^verbatim>\<open>except\<close> of the branch
  loop.
\<close>

fun link_int :: "RTAttributes \<Rightarrow> RTAttributes list \<Rightarrow> real option" where
  "link_int flow [] = Some 0"
| "link_int flow (f_j # int_flows) =
     (if ti f_j = 0 then None
      else map_option (\<lambda>r. of_int \<lceil>di flow / ti f_j\<rceil> * ci f_j + r) (link_int flow int_flows))"

fun pipeline_interference :: "RTAttributes \<Rightarrow> RTAttributes list \<Rightarrow> Link list \<Rightarrow> real option" where
  "pipeline_interference flow all_flows [] = Some 0"
| "pipeline_interference flow all_flows (link # links) =
     (case link_int flow (get_interfering_flows_on_link link flow all_flows) of
        None \<Rightarrow> None
      | Some a \<Rightarrow> map_option (\<lambda>r. a + r) (pipeline_interference flow all_flows links))"

definition hw_delay :: "Link list \<Rightarrow> real" where
  "hw_delay links = (\<Sum>l\<leftarrow>links. prop_delay l + switch_delay l + proc_delay l)"

definition compute_path_wcrt :: "RTAttributes \<Rightarrow> RTAttributes list \<Rightarrow> Link list \<Rightarrow> real option" where
  "compute_path_wcrt flow all_flows links =
     (if links = [] then Some 0
      else map_option (\<lambda>i. hw_delay links + ci flow + i)
             (pipeline_interference flow all_flows links))"

definition route_graph :: "Link list \<Rightarrow> Link nx_graph" where
  "route_graph available_links =
     foldl (\<lambda>G l. add_edge G (src l) (dst l) l) (empty_graph True) available_links"

text \<open>
  The loop over the targets. A target whose path search raises, or whose branch raises,
  is skipped (\<^verbatim>\<open>except: continue\<close>).
\<close>

fun branch_loop ::
  "nx_lib \<Rightarrow> RTAttributes \<Rightarrow> RTAttributes list \<Rightarrow> Link nx_graph \<Rightarrow> node \<Rightarrow> node list \<Rightarrow> real \<Rightarrow> real"
where
  "branch_loop nx flow all_flows G s [] max_val = max_val"
| "branch_loop nx flow all_flows G s (d # targets) max_val =
     (case shortest_path nx G s d of
        Inl e \<Rightarrow> branch_loop nx flow all_flows G s targets max_val
      | Inr path_nodes \<Rightarrow>
          (case compute_path_wcrt flow all_flows (path_edges G path_nodes) of
             None \<Rightarrow> branch_loop nx flow all_flows G s targets max_val
           | Some val \<Rightarrow>
               branch_loop nx flow all_flows G s targets
                 (if val > max_val then val else max_val)))"

definition get_max_branch_wcrt ::
  "nx_lib \<Rightarrow> RTAttributes \<Rightarrow> RTAttributes list \<Rightarrow> node \<Rightarrow> node list \<Rightarrow> Link list \<Rightarrow> real"
where
  "get_max_branch_wcrt nx flow all_flows s targets available_links =
     (if targets = [] \<or> available_links = [] then 0
      else branch_loop nx flow all_flows (route_graph available_links) s targets 0)"

definition TrajectoryApproach_calculate_wcrt ::
  "nx_lib \<Rightarrow> RTAttributes \<Rightarrow> RTAttributes list \<Rightarrow> real"
where
  "TrajectoryApproach_calculate_wcrt nx flow all_flows =
     get_max_branch_wcrt nx flow all_flows (src_ip flow) (dst_ips flow) (route_links flow)
     + (if qi flow > 0 then processing_delay flow else 0)"

subsection \<open>Admission control\<close>

text \<open>
  \<^verbatim>\<open>
  candidate_set = existing_flows + [new_flow]
  wcrt_new = TrajectoryApproach.calculate_wcrt(new_flow, candidate_set)
  if wcrt_new > new_flow.di: return False
  for flow in existing_flows:
      wcrt = TrajectoryApproach.calculate_wcrt(flow, candidate_set)
      if wcrt > flow.di: return False
  return True
  \<close>
\<close>

fun existing_loop :: "nx_lib \<Rightarrow> RTAttributes list \<Rightarrow> RTAttributes list \<Rightarrow> bool" where
  "existing_loop nx candidate_set [] = True"
| "existing_loop nx candidate_set (flow # rest) =
     (if TrajectoryApproach_calculate_wcrt nx flow candidate_set > di flow then False
      else existing_loop nx candidate_set rest)"

definition check_admissibility :: "nx_lib \<Rightarrow> RTAttributes \<Rightarrow> RTAttributes list \<Rightarrow> bool" where
  "check_admissibility nx new_flow existing_flows =
     (let candidate_set = existing_flows @ [new_flow];
          wcrt_new = TrajectoryApproach_calculate_wcrt nx new_flow candidate_set
      in if wcrt_new > di new_flow then False
         else existing_loop nx candidate_set existing_flows)"

subsection \<open>Holistic approach\<close>











section \<open>Routing engine\<close>

text \<open>
  \<^verbatim>\<open>
  cost = link.prop_delay + link.switch_delay + link.proc_delay
  utilization = link.bw_used / link.bw_capacity if link.bw_capacity > 0 else 0.99
  if utilization >= 1.0: utilization = 0.99
  final_cost = cost / (1 - utilization)
  G.add_edge(link.src, link.dst, weight=final_cost, link_obj=link)
  \<close>
\<close>

definition utilization :: "Link \<Rightarrow> real" where
  "utilization link =
     (let u = (if bw_capacity link > 0 then bw_used link / bw_capacity link else 99 / 100)
      in if u \<ge> 1 then 99 / 100 else u)"

definition final_cost :: "Link \<Rightarrow> real" where
  "final_cost link =
     (prop_delay link + switch_delay link + proc_delay link) / (1 - utilization link)"

definition build_graph :: "Link list \<Rightarrow> edge_data nx_graph" where
  "build_graph links =
     foldl (\<lambda>G link. add_edge G (src link) (dst link)
                        \<lparr>weight = final_cost link, link_obj = link\<rparr>)
           (empty_graph False) links"

definition nodes_to_links :: "edge_data nx_graph \<Rightarrow> node list \<Rightarrow> Link list" where
  "nodes_to_links G ns = map link_obj (path_edges G ns)"

text \<open>The links of the tree edges: \<^verbatim>\<open>for u, v in st_tree.edges(): if G.has_edge(u, v): ...\<close>\<close>

fun tree_links :: "edge_data nx_graph \<Rightarrow> (node \<times> node) list \<Rightarrow> Link list" where
  "tree_links G [] = []"
| "tree_links G (e # es) =
     (case get_edge G (fst e) (snd e) of
        Some a \<Rightarrow> link_obj a # tree_links G es
      | None \<Rightarrow> tree_links G es)"

fun append_new :: "'a list \<Rightarrow> 'a list \<Rightarrow> 'a list" where
  "append_new path_links [] = path_links"
| "append_new path_links (l # p_links) =
     append_new (if l \<in> set path_links then path_links else path_links @ [l]) p_links"

text \<open>The fallback: the union of the unicast paths, a failed search being passed over.\<close>

fun fallback_loop ::
  "nx_lib \<Rightarrow> edge_data nx_graph \<Rightarrow> node \<Rightarrow> node list \<Rightarrow> Link list \<Rightarrow> Link list"
where
  "fallback_loop nx G s [] path_links = path_links"
| "fallback_loop nx G s (d # ds) path_links =
     (case dijkstra_path nx G s d of
        Inl e \<Rightarrow> fallback_loop nx G s ds path_links
      | Inr p_nodes \<Rightarrow> fallback_loop nx G s ds (append_new path_links (nodes_to_links G p_nodes)))"

text \<open>
  \<^verbatim>\<open>calculate_path\<close>. In the unicast branch only \<^verbatim>\<open>NetworkXNoPath\<close> is caught; any
  other exception of the search leaves the function. In the multicast branch every
  exception of the tree approximation leads to the fallback.
\<close>

definition calculate_path ::
  "nx_lib \<Rightarrow> Link list \<Rightarrow> node \<Rightarrow> node list \<Rightarrow> nx_exception + Link list"
where
  "calculate_path nx links s dsts =
     (let G = build_graph links in
      if \<not> has_node G s then Inr []
      else
        (case filter (has_node G) dsts of
           [] \<Rightarrow> Inr []
         | [d] \<Rightarrow>
             (case dijkstra_path nx G s d of
                Inl NetworkXNoPath \<Rightarrow> Inr []
              | Inl e \<Rightarrow> Inl e
              | Inr path_nodes \<Rightarrow> Inr (nodes_to_links G path_nodes))
         | d # d' # ds \<Rightarrow>
             (case steiner_tree nx G (s # d # d' # ds) of
                Inr st_edges \<Rightarrow> Inr (tree_links G st_edges)
              | Inl e \<Rightarrow> Inr (fallback_loop nx G s (d # d' # ds) []))))"

text \<open>
  \<^verbatim>\<open>select_optimal_rp\<close>. The inner loop raises what the distance query raises; the
  outer loop passes over a node for which it raised \<^verbatim>\<open>NetworkXNoPath\<close>. The pair
  \<open>best\<close> is \<^verbatim>\<open>(best_rp, min_max_dist)\<close>, \<open>None\<close> while they are still
  \<^verbatim>\<open>(None, inf)\<close>; \<open>rp_update\<close> is the test
  \<^verbatim>\<open>if max_dist < min_max_dist: min_max_dist = max_dist; best_rp = node\<close>.
\<close>

fun max_dist_loop ::
  "nx_lib \<Rightarrow> edge_data nx_graph \<Rightarrow> node \<Rightarrow> node list \<Rightarrow> real \<Rightarrow> nx_exception + real"
where
  "max_dist_loop nx G n [] max_dist = Inr max_dist"
| "max_dist_loop nx G n (sub # subs) max_dist =
     (case dijkstra_path_length nx G n sub of
        Inl e \<Rightarrow> Inl e
      | Inr distance \<Rightarrow>
          max_dist_loop nx G n subs (if distance > max_dist then distance else max_dist))"

definition rp_update :: "(node \<times> real) option \<Rightarrow> node \<Rightarrow> real \<Rightarrow> (node \<times> real) option" where
  "rp_update best n max_dist =
     (case best of
        None \<Rightarrow> Some (n, max_dist)
      | Some b \<Rightarrow> if max_dist < snd b then Some (n, max_dist) else Some b)"

fun rp_loop ::
  "nx_lib \<Rightarrow> edge_data nx_graph \<Rightarrow> node list \<Rightarrow> node list \<Rightarrow> (node \<times> real) option
     \<Rightarrow> nx_exception + (node \<times> real) option"
where
  "rp_loop nx G valid_subs [] best = Inr best"
| "rp_loop nx G valid_subs (n # ns) best =
     (case max_dist_loop nx G n valid_subs 0 of
        Inl NetworkXNoPath \<Rightarrow> rp_loop nx G valid_subs ns best
      | Inl e \<Rightarrow> Inl e
      | Inr max_dist \<Rightarrow> rp_loop nx G valid_subs ns (rp_update best n max_dist))"

definition select_optimal_rp ::
  "nx_lib \<Rightarrow> Link list \<Rightarrow> node list \<Rightarrow> nx_exception + node option"
where
  "select_optimal_rp nx links subscribers =
     (let G = build_graph links in
      if nodes G = [] then Inr None
      else
        (let valid_subs = filter (has_node G) subscribers in
         if valid_subs = [] then Inr None
         else (case rp_loop nx G valid_subs (nodes G) None of
                 Inl e \<Rightarrow> Inl e
               | Inr best \<Rightarrow> Inr (map_option fst best))))"

section \<open>OF-DB\<close>

text \<open>
  Modelled from the spec: the registry \<^verbatim>\<open>common/of_db.py\<close> is not among the
  sources. The specification describes it as mappings from link keys to links, from
  topics to flows and from topics to subscriber sets, where a duplicate key replaces the
  entry and a missing key gives an absent marker; a subscriber join appends the
  subscriber to the topic's subscribers and adds it to the flow's \<^verbatim>\<open>dst_ips\<close>,
  duplicates counting once. The mappings are Python dicts, kept here as association
  lists in insertion order.
\<close>

record OFDB =
  db_links :: "((node \<times> node \<times> int) \<times> Link) list"
  db_flows :: "(string \<times> RTAttributes) list"
  db_subscribers :: "(string \<times> node list) list"

fun dict_set :: "'k \<Rightarrow> 'v \<Rightarrow> ('k \<times> 'v) list \<Rightarrow> ('k \<times> 'v) list" where
  "dict_set k v [] = [(k, v)]"
| "dict_set k v (x # xs) = (if fst x = k then (k, v) # xs else x # dict_set k v xs)"

definition add_unique :: "'a \<Rightarrow> 'a list \<Rightarrow> 'a list" where
  "add_unique x xs = (if x \<in> set xs then xs else xs @ [x])"

definition add_link :: "OFDB \<Rightarrow> node \<Rightarrow> node \<Rightarrow> int \<Rightarrow> Link \<Rightarrow> OFDB" where
  "add_link db s d p link = db\<lparr>db_links := dict_set (s, d, p) link (db_links db)\<rparr>"

definition add_flow :: "OFDB \<Rightarrow> string \<Rightarrow> RTAttributes \<Rightarrow> OFDB" where
  "add_flow db topic flow = db\<lparr>db_flows := dict_set topic flow (db_flows db)\<rparr>"

definition get_flow :: "OFDB \<Rightarrow> string \<Rightarrow> RTAttributes option" where
  "get_flow db topic = map_of (db_flows db) topic"

definition get_all_flows :: "OFDB \<Rightarrow> (string \<times> RTAttributes) list" where
  "get_all_flows db = db_flows db"

definition get_subscribers :: "OFDB \<Rightarrow> string \<Rightarrow> node list" where
  "get_subscribers db topic = (case map_of (db_subscribers db) topic of None \<Rightarrow> [] | Some subs \<Rightarrow> subs)"

definition add_subscriber :: "OFDB \<Rightarrow> string \<Rightarrow> node \<Rightarrow> OFDB" where
  "add_subscriber db topic sub_ip =
     db\<lparr>db_subscribers := dict_set topic (add_unique sub_ip (get_subscribers db topic)) (db_subscribers db),
        db_flows := (case get_flow db topic of
                       None \<Rightarrow> db_flows db
                     | Some flow \<Rightarrow>
                         dict_set topic (flow\<lparr>dst_ips := add_unique sub_ip (dst_ips flow)\<rparr>)
                           (db_flows db))\<rparr>"

definition empty_db :: OFDB where
  "empty_db = \<lparr>db_links = [], db_flows = [], db_subscribers = []\<rparr>"

section \<open>Flow orchestration\<close>

text \<open>
  Modelled from the spec: the constructor \<^verbatim>\<open>RTAttributes(**rt_attrs_dict)\<close> belongs to
  \<^verbatim>\<open>common/rt_attributes.py\<close>, which is not among the sources. The request carries
  the flow descriptor as a JSON object with the timing attributes and the endpoint lists;
  \<^verbatim>\<open>route_links\<close> holds \<^verbatim>\<open>Link\<close> objects, which a JSON body cannot carry, so a
  flow built from a request has no route yet.
\<close>

record rt_attrs_dict =
  d_ft_i :: string
  d_qi :: int
  d_ci :: real
  d_pi :: int
  d_ti :: real
  d_di :: real
  d_bwi :: real
  d_dst_ips :: "node list"
  d_broker_ips :: "node list"
  d_multicast_group_id :: int
  d_processing_delay :: real
  d_measured_jitter :: real

definition RTAttributes_init :: "rt_attrs_dict \<Rightarrow> RTAttributes" where
  "RTAttributes_init d =
     \<lparr>ft_i = d_ft_i d, qi = d_qi d, ci = d_ci d, pi_prio = d_pi d, ti = d_ti d, di = d_di d,
      bwi = d_bwi d, src_ip = [], dst_ips = d_dst_ips d, broker_ips = d_broker_ips d,
      route_links = [], multicast_group_id = d_multicast_group_id d,
      processing_delay = d_processing_delay d, measured_jitter = d_measured_jitter d,
      num_hops = 0\<rparr>"

text \<open>
  What the controller takes from outside the repository: the graph library, Python's
  \<^verbatim>\<open>hash\<close> of a string (it differs from process to process) and Python's
  \<^verbatim>\<open>int\<close> of a string, \<open>None\<close> where it raises \<^verbatim>\<open>ValueError\<close>.
\<close>

record py_env =
  env_nx :: nx_lib
  env_hash :: "string \<Rightarrow> int"
  env_int :: "string \<Rightarrow> int option"

text \<open>
  \<^verbatim>\<open>_install_multicast_tree\<close>: the forwarding map from switch to output ports, then
  the group id, assigned when it is still zero. The meter, group and flow messages go to
  the switches and leave the registry alone; the model returns the forwarding map in
  their place.
\<close>

fun fwd_map_loop ::
  "(string \<Rightarrow> int option) \<Rightarrow> Link list \<Rightarrow> (int \<times> int list) list
     \<Rightarrow> py_exception + (int \<times> int list) list"
where
  "fwd_map_loop to_int [] fwd_map = Inr fwd_map"
| "fwd_map_loop to_int (link # path_links) fwd_map =
     (case to_int (src link) of
        None \<Rightarrow> Inl ValueError
      | Some dpid \<Rightarrow>
          fwd_map_loop to_int path_links
            (dict_set dpid
               (add_unique (port_out link)
                  (case map_of fwd_map dpid of None \<Rightarrow> [] | Some ports \<Rightarrow> ports))
               fwd_map))"

definition install_multicast_tree ::
  "py_env \<Rightarrow> RTAttributes \<Rightarrow> Link list \<Rightarrow> py_exception + RTAttributes \<times> (int \<times> int list) list"
where
  "install_multicast_tree env flow path_links =
     (case fwd_map_loop (env_int env) path_links [] of
        Inl e \<Rightarrow> Inl e
      | Inr fwd_map \<Rightarrow>
          Inr (if multicast_group_id flow = 0
               then flow\<lparr>multicast_group_id := \<bar>env_hash env (ft_i flow)\<bar> mod 2000 + 1\<rparr>
               else flow,
               fwd_map))"

text \<open>
  \<^verbatim>\<open>register_rt_flow\<close>. Its first lines build the flow object of the request
  (\<open>request_rt_attrs\<close>): the constructor, the source address, and the broker if one is
  given and not yet listed. The flow object handed to \<^verbatim>\<open>of_db.add_flow\<close> is the one
  the function goes on to change, so every later assignment to it is written to the
  registry entry of the topic as well. The result pairs what the call returns (or the
  exception that leaves it) with the registry it leaves behind.
\<close>

definition request_rt_attrs :: "rt_attrs_dict \<Rightarrow> node \<Rightarrow> string option \<Rightarrow> RTAttributes" where
  "request_rt_attrs rt_attrs_dict src_addr broker_ip =
     (let rt_attrs = (RTAttributes_init rt_attrs_dict)\<lparr>src_ip := src_addr\<rparr> in
      case broker_ip of
        None \<Rightarrow> rt_attrs
      | Some b \<Rightarrow>
          if b \<noteq> [] \<and> b \<notin> set (broker_ips rt_attrs)
          then rt_attrs\<lparr>broker_ips := broker_ips rt_attrs @ [b]\<rparr>
          else rt_attrs)"

definition elect_rp :: "py_env \<Rightarrow> OFDB \<Rightarrow> RTAttributes \<Rightarrow> nx_exception + RTAttributes" where
  "elect_rp env db rt_attrs =
     (if broker_ips rt_attrs = []
      then (case select_optimal_rp (env_nx env) (map snd (db_links db)) (dst_ips rt_attrs) of
              Inl e \<Rightarrow> Inl e
            | Inr None \<Rightarrow> Inr rt_attrs
            | Inr (Some rp) \<Rightarrow>
                Inr (if rp \<noteq> [] then rt_attrs\<lparr>broker_ips := [rp]\<rparr> else rt_attrs))
      else Inr rt_attrs)"

definition commit_tree ::
  "py_env \<Rightarrow> OFDB \<Rightarrow> string \<Rightarrow> RTAttributes \<Rightarrow> Link list \<Rightarrow> py_exception option \<times> OFDB"
where
  "commit_tree env db topic rt_attrs path_links =
     (case install_multicast_tree env rt_attrs path_links of
        Inl e \<Rightarrow> (Some e, db)
      | Inr r \<Rightarrow> (None, add_flow db topic (fst r)))"

definition returning :: "bool \<Rightarrow> py_exception option \<times> OFDB \<Rightarrow> (py_exception + bool) \<times> OFDB" where
  "returning b r = (case fst r of Some e \<Rightarrow> (Inl e, snd r) | None \<Rightarrow> (Inr b, snd r))"

definition register_rt_flow ::
  "py_env \<Rightarrow> OFDB \<Rightarrow> string \<Rightarrow> rt_attrs_dict \<Rightarrow> node \<Rightarrow> string option
     \<Rightarrow> (py_exception + bool) \<times> OFDB"
where
  "register_rt_flow env db topic rt_attrs_dict src_addr broker_ip =
     (let rt_attrs = request_rt_attrs rt_attrs_dict src_addr broker_ip;
          db1 = add_flow db topic rt_attrs;
          all_flows = get_all_flows db1
      in if \<not> check_admissibility (env_nx env) rt_attrs (map snd all_flows)
         then (Inr False, db1)
         else
           (case calculate_path (env_nx env) (map snd (db_links db1))
                   (src_ip rt_attrs) (dst_ips rt_attrs) of
              Inl e \<Rightarrow> (Inl (NetworkX e), db1)
            | Inr path_links \<Rightarrow>
                (let rt2 = rt_attrs\<lparr>route_links := path_links, num_hops := length path_links\<rparr>;
                     db2 = add_flow db1 topic rt2
                 in if qi rt2 = 0 then returning True (commit_tree env db2 topic rt2 path_links)
                    else
                      (case elect_rp env db2 rt2 of
                         Inl e \<Rightarrow> (Inl (NetworkX e), db2)
                       | Inr rt3 \<Rightarrow>
                           (let db3 = add_flow db2 topic rt3 in
                            case calculate_path (env_nx env) (map snd (db_links db3))
                                   (src_ip rt3) (broker_ips rt3) of
                              Inl e \<Rightarrow> (Inl (NetworkX e), db3)
                            | Inr to_broker_links \<Rightarrow>
                                returning True
                                  (commit_tree env db3 topic rt3 to_broker_links))))))"

text \<open>
  \<^verbatim>\<open>handle_new_subscriber\<close>: the subscriber is recorded first, then the tree of the
  topic's flow, if there is one, is computed again from the flow's destinations.
\<close>

definition handle_new_subscriber ::
  "py_env \<Rightarrow> OFDB \<Rightarrow> string \<Rightarrow> node \<Rightarrow> py_exception option \<times> OFDB"
where
  "handle_new_subscriber env db topic sub_ip =
     (let db1 = add_subscriber db topic sub_ip in
      case get_flow db1 topic of
        None \<Rightarrow> (None, db1)
      | Some flow \<Rightarrow>
          (case calculate_path (env_nx env) (map snd (db_links db1))
                  (src_ip flow) (dst_ips flow) of
             Inl e \<Rightarrow> (Some (NetworkX e), db1)
           | Inr new_links \<Rightarrow>
               (let flow1 = flow\<lparr>route_links := new_links\<rparr>;
                    db2 = add_flow db1 topic flow1
                in commit_tree env db2 topic flow1 new_links)))"

section \<open>The trajectory bound as the specification states it\<close>

text \<open>
  The specification gives the trajectory bound as a closed formula: for every
  destination the hardware delays of the path's links, plus \<open>ci\<close>, plus for every path
  link the interference \<open>\<lceil>di(f) / ti(g)\<rceil> * ci(g)\<close> of every flow \<open>g\<close> other than \<open>f\<close>
  that shares the link and has a priority at least that of \<open>f\<close>; the bound is the
  maximum over the destinations, plus the processing delay when \<open>qi > 0\<close>. A link is
  shared when a route link of \<open>g\<close> has the same two endpoints. The path of a destination
  is what the library's search on the route graph returns.
\<close>

definition ta_interferers :: "Link \<Rightarrow> RTAttributes \<Rightarrow> RTAttributes list \<Rightarrow> RTAttributes list" where
  "ta_interferers l f F =
     filter (\<lambda>g. ft_i g \<noteq> ft_i f
                 \<and> list_ex (\<lambda>l'. src l' = src l \<and> dst l' = dst l) (route_links g)
                 \<and> pi_prio f \<le> pi_prio g) F"

definition ta_branch :: "RTAttributes \<Rightarrow> RTAttributes list \<Rightarrow> Link list \<Rightarrow> real" where
  "ta_branch f F path =
     (\<Sum>l\<leftarrow>path. prop_delay l + switch_delay l + proc_delay l) + ci f
     + (\<Sum>l\<leftarrow>path. \<Sum>g\<leftarrow>ta_interferers l f F. of_int \<lceil>di f / ti g\<rceil> * ci g)"

definition ta_path :: "nx_lib \<Rightarrow> RTAttributes \<Rightarrow> node \<Rightarrow> Link list" where
  "ta_path nx f d =
     (case shortest_path nx (route_graph (route_links f)) (src_ip f) d of
        Inr p \<Rightarrow> path_edges (route_graph (route_links f)) p
      | Inl e \<Rightarrow> [])"

definition ta_max_branch :: "nx_lib \<Rightarrow> RTAttributes \<Rightarrow> RTAttributes list \<Rightarrow> real" where
  "ta_max_branch nx f F = Max (set (map (\<lambda>d. ta_branch f F (ta_path nx f d)) (dst_ips f)))"

definition TA_WCRT_spec :: "nx_lib \<Rightarrow> RTAttributes \<Rightarrow> RTAttributes list \<Rightarrow> real" where
  "TA_WCRT_spec nx f F =
     ta_max_branch nx f F + (if qi f > 0 then processing_delay f else 0)"

text \<open>
  What the code does where the formula has no value. The branch of a destination is
  left out of the maximum when the path search fails and when a flow interfering on a
  link of the path has a zero period (the division raises and the loop goes on to the
  next destination); a path without a link has the branch 0; every other destination
  has the branch of the formula. The maximum starts from 0.
\<close>

definition ta_raises :: "RTAttributes \<Rightarrow> RTAttributes list \<Rightarrow> Link list \<Rightarrow> bool" where
  "ta_raises f F path = list_ex (\<lambda>l. list_ex (\<lambda>g. ti g = 0) (ta_interferers l f F)) path"

definition ta_branch_value ::
  "nx_lib \<Rightarrow> RTAttributes \<Rightarrow> RTAttributes list \<Rightarrow> node \<Rightarrow> real option"
where
  "ta_branch_value nx f F d =
     (case shortest_path nx (route_graph (route_links f)) (src_ip f) d of
        Inl e \<Rightarrow> None
      | Inr p \<Rightarrow>
          (let path = path_edges (route_graph (route_links f)) p in
           if path = [] then Some 0
           else if ta_raises f F path then None
           else Some (ta_branch f F path)))"

definition ta_branch_values :: "nx_lib \<Rightarrow> RTAttributes \<Rightarrow> RTAttributes list \<Rightarrow> real list" where
  "ta_branch_values nx f F =
     concat (map (\<lambda>d. case ta_branch_value nx f F d of None \<Rightarrow> [] | Some v \<Rightarrow> [v])
                 (dst_ips f))"

section \<open>The routing rules as the specification states them\<close>

text \<open>
  The edge weight of the specification: the cost divided by \<open>1 - u\<close> with
  \<open>u = min (bw_used / bw_capacity) 0.99\<close>, and \<open>u = 0.99\<close> for a capacity of zero.
\<close>

definition spec_weight :: "Link \<Rightarrow> real" where
  "spec_weight l =
     (prop_delay l + switch_delay l + proc_delay l)
       / (1 - (if bw_capacity l = 0 then 99 / 100 else min (bw_used l / bw_capacity l) (99 / 100)))"

text \<open>
  The rendezvous point minimises the largest distance to a subscriber. A node reaches
  the subscribers when every distance query returns; its eccentricity is the largest of
  the distances.
\<close>

definition reaches_all :: "nx_lib \<Rightarrow> edge_data nx_graph \<Rightarrow> node list \<Rightarrow> node \<Rightarrow> bool" where
  "reaches_all nx G subs n =
     list_all (\<lambda>s. case dijkstra_path_length nx G n s of Inr d \<Rightarrow> True | Inl e \<Rightarrow> False) subs"

definition sub_dist :: "nx_lib \<Rightarrow> edge_data nx_graph \<Rightarrow> node \<Rightarrow> node \<Rightarrow> real" where
  "sub_dist nx G n s = (case dijkstra_path_length nx G n s of Inr d \<Rightarrow> d | Inl e \<Rightarrow> 0)"

definition eccentricity :: "nx_lib \<Rightarrow> edge_data nx_graph \<Rightarrow> node list \<Rightarrow> node \<Rightarrow> real" where
  "eccentricity nx G subs n = Max (set (map (sub_dist nx G n) subs))"

section \<open>The interference sum of the holistic iteration\<close>





section \<open>The bandwidth invariant of the specification\<close>

text \<open>
  For every link of the registry, \<open>bw_used\<close> is the sum of \<open>bwi\<close> over the flows of the
  registry whose route holds the link.
\<close>

definition bw_accounted :: "OFDB \<Rightarrow> bool" where
  "bw_accounted db =
     list_all (\<lambda>l. bw_used l
                  = (\<Sum>f\<leftarrow>filter (\<lambda>f. l \<in> set (route_links f)) (map snd (db_flows db)). bwi f))
       (map snd (db_links db))"

section \<open>A reference library and example topologies\<close>

text \<open>
  To run the model on a concrete topology the library parameter needs a value. The
  reference searches enumerate the simple paths between two nodes and take the first
  one of least cost, which is a shortest path whenever the weights are not negative.
  The reference tree joins every terminal to the first one by a cheapest path. The
  examples below use topologies on which the cheapest paths are unique.
\<close>

definition neighbours :: "'a nx_graph \<Rightarrow> node \<Rightarrow> node list" where
  "neighbours G u =
     concat (map (\<lambda>x. if fst (fst x) = u then [snd (fst x)]
                       else if \<not> directed G \<and> snd (fst x) = u then [fst (fst x)] else [])
                 (edges G))"

fun simple_paths :: "nat \<Rightarrow> 'a nx_graph \<Rightarrow> node list \<Rightarrow> node \<Rightarrow> node \<Rightarrow> node list list" where
  "simple_paths 0 G visited s t = (if s = t then [[s]] else [])"
| "simple_paths (Suc n) G visited s t =
     (if s = t then [[s]]
      else concat (map (\<lambda>v. map ((#) s) (simple_paths n G (s # visited) v t))
                       (filter (\<lambda>v. v \<notin> set (s # visited)) (neighbours G s))))"

fun first_min :: "('a \<Rightarrow> real) \<Rightarrow> 'a list \<Rightarrow> 'a option" where
  "first_min c [] = None"
| "first_min c (x # xs) =
     (case first_min c xs of None \<Rightarrow> Some x | Some y \<Rightarrow> if c y < c x then Some y else Some x)"

definition path_weight :: "edge_data nx_graph \<Rightarrow> node list \<Rightarrow> real" where
  "path_weight G p = (\<Sum>a\<leftarrow>path_edges G p. weight a)"

definition ref_shortest_path :: "Link nx_graph \<Rightarrow> node \<Rightarrow> node \<Rightarrow> nx_exception + node list" where
  "ref_shortest_path G s t =
     (if \<not> has_node G s \<or> \<not> has_node G t then Inl NodeNotFound
      else case first_min (\<lambda>p. real (length p)) (simple_paths (length (nodes G)) G [] s t) of
             None \<Rightarrow> Inl NetworkXNoPath
           | Some p \<Rightarrow> Inr p)"

definition ref_dijkstra_path :: "edge_data nx_graph \<Rightarrow> node \<Rightarrow> node \<Rightarrow> nx_exception + node list" where
  "ref_dijkstra_path G s t =
     (if \<not> has_node G s then Inl NodeNotFound
      else case first_min (path_weight G) (simple_paths (length (nodes G)) G [] s t) of
             None \<Rightarrow> Inl NetworkXNoPath
           | Some p \<Rightarrow> Inr p)"

definition ref_dijkstra_path_length :: "edge_data nx_graph \<Rightarrow> node \<Rightarrow> node \<Rightarrow> nx_exception + real" where
  "ref_dijkstra_path_length G s t =
     (case ref_dijkstra_path G s t of Inl e \<Rightarrow> Inl e | Inr p \<Rightarrow> Inr (path_weight G p))"

fun path_pairs :: "node list \<Rightarrow> (node \<times> node) list" where
  "path_pairs (u # v # rest) = (u, v) # path_pairs (v # rest)"
| "path_pairs [u] = []"
| "path_pairs [] = []"

fun ref_steiner_loop ::
  "edge_data nx_graph \<Rightarrow> node \<Rightarrow> node list \<Rightarrow> (node \<times> node) list \<Rightarrow> nx_exception + (node \<times> node) list"
where
  "ref_steiner_loop G r [] es = Inr es"
| "ref_steiner_loop G r (t # ts) es =
     (case ref_dijkstra_path G r t of
        Inl e \<Rightarrow> Inl e
      | Inr p \<Rightarrow> ref_steiner_loop G r ts
                  (es @ filter (\<lambda>e. \<not> list_ex (same_edge False e) es) (path_pairs p)))"

definition ref_steiner_tree :: "edge_data nx_graph \<Rightarrow> node list \<Rightarrow> nx_exception + (node \<times> node) list" where
  "ref_steiner_tree G terminals =
     (case terminals of [] \<Rightarrow> Inr [] | r # ts \<Rightarrow> ref_steiner_loop G r ts [])"

definition nx_reference :: nx_lib where
  "nx_reference = \<lparr>shortest_path = ref_shortest_path, dijkstra_path = ref_dijkstra_path,
     dijkstra_path_length = ref_dijkstra_path_length, steiner_tree = ref_steiner_tree\<rparr>"

text \<open>
  Reference values for the two Python built-ins: \<^verbatim>\<open>int\<close> on a string of decimal
  digits, and for \<^verbatim>\<open>hash\<close> the length of the string (any function of the string
  will do).
\<close>

definition digit_of :: "char \<Rightarrow> int option" where
  "digit_of c =
     (let k = (of_char c :: nat) in if 48 \<le> k \<and> k \<le> 57 then Some (int k - 48) else None)"

fun ref_int_loop :: "string \<Rightarrow> int \<Rightarrow> int option" where
  "ref_int_loop [] acc = Some acc"
| "ref_int_loop (c # cs) acc =
     (case digit_of c of None \<Rightarrow> None | Some d \<Rightarrow> ref_int_loop cs (acc * 10 + d))"

definition ref_int :: "string \<Rightarrow> int option" where
  "ref_int s = (if s = [] then None else ref_int_loop s 0)"

definition ref_hash :: "string \<Rightarrow> int" where
  "ref_hash s = int (length s)"

definition env_reference :: py_env where
  "env_reference = \<lparr>env_nx = nx_reference, env_hash = ref_hash, env_int = ref_int\<rparr>"

text \<open>
  A link as the experiment scripts build it: \<^verbatim>\<open>bw_capacity=100.0\<close>, a propagation
  delay, every other delay zero.
\<close>

definition mk_link :: "node \<Rightarrow> node \<Rightarrow> int \<Rightarrow> real \<Rightarrow> Link" where
  "mk_link s d p pd = \<lparr>src = s, dst = d, port_out = p, prop_delay = pd, switch_delay = 0,
     proc_delay = 0, queuing_delay = 0, jitter = 0, bw_capacity = 100, bw_used = 0\<rparr>"

text \<open>
  The diamond of \<^verbatim>\<open>experiment_setup.py\<close> with 5 ms links; both flows run from
  switch 1 to switch 4 over 1-2-4. Flow B has the lower priority; flow C has a deadline
  of exactly 10.5 ms.
\<close>

definition route_124 :: "Link list" where
  "route_124 = [mk_link ''1'' ''2'' 1 5, mk_link ''2'' ''4'' 1 5]"

definition flow_B :: RTAttributes where
  "flow_B = \<lparr>ft_i = ''topic/camera_B'', qi = 0, ci = 5, pi_prio = 5, ti = 50, di = 50, bwi = 10,
     src_ip = ''1'', dst_ips = [''4''], broker_ips = [], route_links = route_124,
     multicast_group_id = 0, processing_delay = 0, measured_jitter = 0, num_hops = 2\<rparr>"

definition flow_C :: RTAttributes where
  "flow_C = \<lparr>ft_i = ''topic/sensor_C'', qi = 0, ci = 1/2, pi_prio = 10, ti = 20, di = 21/2, bwi = 1,
     src_ip = ''1'', dst_ips = [''4''], broker_ips = [], route_links = route_124,
     multicast_group_id = 0, processing_delay = 0, measured_jitter = 0, num_hops = 2\<rparr>"

text \<open>
  A flow whose only destination is its own source, over a route that starts at the
  source.
\<close>

definition flow_self :: RTAttributes where
  "flow_self = \<lparr>ft_i = ''topic/self'', qi = 0, ci = 1/2, pi_prio = 10, ti = 20, di = 10, bwi = 1,
     src_ip = ''1'', dst_ips = [''1''], broker_ips = [], route_links = [mk_link ''1'' ''2'' 1 5],
     multicast_group_id = 0, processing_delay = 0, measured_jitter = 0, num_hops = 1\<rparr>"

text \<open>
  The request of \<^verbatim>\<open>full_verification.py\<close>: a broker-mediated flow with a
  processing delay of 1.5 ms.
\<close>

definition request_E :: rt_attrs_dict where
  "request_E = \<lparr>d_ft_i = ''topic/alert'', d_qi = 2, d_ci = 2, d_pi = 10, d_ti = 20, d_di = 20,
     d_bwi = 5, d_dst_ips = [''3''], d_broker_ips = [], d_multicast_group_id = 0,
     d_processing_delay = 3/2, d_measured_jitter = 0\<rparr>"

text \<open>A link at 99.5 percent utilisation.\<close>

definition link_busy :: Link where
  "link_busy = \<lparr>src = ''1'', dst = ''2'', port_out = 1, prop_delay = 5, switch_delay = 0,
     proc_delay = 0, queuing_delay = 0, jitter = 0, bw_capacity = 100, bw_used = 199 / 2\<rparr>"

text \<open>
  The triangle of \<^verbatim>\<open>full_verification.py\<close> with 5 ms links, in the order of the
  script and in an order that mentions node 2 first; and two separate links.
\<close>

definition links_tri :: "Link list" where
  "links_tri = [mk_link ''1'' ''2'' 1 5, mk_link ''2'' ''3'' 1 5, mk_link ''1'' ''3'' 2 5]"

definition links_tri_231 :: "Link list" where
  "links_tri_231 = [mk_link ''2'' ''3'' 1 5, mk_link ''1'' ''2'' 1 5, mk_link ''1'' ''3'' 2 5]"

definition links_two_islands :: "Link list" where
  "links_two_islands = [mk_link ''1'' ''2'' 1 5, mk_link ''3'' ''4'' 1 5]"




definition link_dead :: Link where
  "link_dead = \<lparr>src = ''1'', dst = ''2'', port_out = 1, prop_delay = 5, switch_delay = 0,
     proc_delay = 0, queuing_delay = 0, jitter = 0, bw_capacity = 0, bw_used = 0\<rparr>"

text \<open>
  Registries: one link from switch 1 to switch 2; the triangle; the triangle with flow D
  admitted towards switch 2. Requests: flow D, and a broker-mediated flow whose
  processing delay of 5 ms exceeds its deadline of 1 ms.
\<close>

definition db_one_link :: OFDB where
  "db_one_link = add_link empty_db ''1'' ''2'' 1 (mk_link ''1'' ''2'' 1 5)"

definition request_D :: rt_attrs_dict where
  "request_D = \<lparr>d_ft_i = ''topic/D'', d_qi = 0, d_ci = 1/2, d_pi = 10, d_ti = 20, d_di = 50,
     d_bwi = 1, d_dst_ips = [''2''], d_broker_ips = [], d_multicast_group_id = 0,
     d_processing_delay = 0, d_measured_jitter = 0\<rparr>"

definition request_late :: rt_attrs_dict where
  "request_late = \<lparr>d_ft_i = ''topic/late'', d_qi = 1, d_ci = 1/2, d_pi = 10, d_ti = 20, d_di = 1,
     d_bwi = 1, d_dst_ips = [''2''], d_broker_ips = [], d_multicast_group_id = 0,
     d_processing_delay = 5, d_measured_jitter = 0\<rparr>"

definition flow_D :: RTAttributes where
  "flow_D = \<lparr>ft_i = ''topic/D'', qi = 0, ci = 1/2, pi_prio = 10, ti = 20, di = 50, bwi = 1,
     src_ip = ''1'', dst_ips = [''2''], broker_ips = [], route_links = [mk_link ''1'' ''2'' 1 5],
     multicast_group_id = 8, processing_delay = 0, measured_jitter = 0, num_hops = 1\<rparr>"

definition db_tri :: OFDB where
  "db_tri = add_link (add_link (add_link empty_db ''1'' ''2'' 1 (mk_link ''1'' ''2'' 1 5))
              ''2'' ''3'' 1 (mk_link ''2'' ''3'' 1 5)) ''1'' ''3'' 2 (mk_link ''1'' ''3'' 2 5)"


definition db_tri_D :: OFDB where
  "db_tri_D = db_tri\<lparr>db_flows := [(''topic/D'', flow_D)], db_subscribers := [(''topic/D'', [''2''])]\<rparr>"

text \<open>A registry that holds flow D and no link at all.\<close>

definition db_no_link :: OFDB where
  "db_no_link = empty_db\<lparr>db_flows := [(''topic/D'', flow_D)]\<rparr>"

section \<open>Properties of admission control\<close>

lemma existing_loop_iff:
  "existing_loop nx cs fs \<longleftrightarrow> (\<forall>g\<in>set fs. TrajectoryApproach_calculate_wcrt nx g cs \<le> di g)"
  by (induction fs) (auto simp: not_less)

text \<open>
  Claim C1. Admission control admits a candidate \<open>f\<close> against the admitted flows \<open>F\<close>
  exactly when the trajectory bound of \<open>f\<close> in \<open>F\<close> extended by \<open>f\<close> is at most its
  deadline and the bound of every flow of \<open>F\<close> in the extended set is at most that
  flow's deadline. The comparison is \<open>\<le>\<close>: a bound equal to the deadline admits.
\<close>

theorem check_admissibility_iff:
  "check_admissibility nx f F \<longleftrightarrow>
     TrajectoryApproach_calculate_wcrt nx f (F @ [f]) \<le> di f
     \<and> (\<forall>g\<in>set F. TrajectoryApproach_calculate_wcrt nx g (F @ [f]) \<le> di g)"
  by (simp add: check_admissibility_def Let_def existing_loop_iff not_less)

text \<open>
  On the diamond, flow C meets its deadline with no slack (5 + 5 + 0.5 = 10.5) and
  flow B keeps its own (10 + 5 + 2 * 3 * 0.5 = 18), so C is admitted.
\<close>

lemma wcrt_C_example:
  "TrajectoryApproach_calculate_wcrt nx_reference flow_C [flow_B, flow_C] = 21 / 2"
  by code_simp

lemma wcrt_B_example:
  "TrajectoryApproach_calculate_wcrt nx_reference flow_B [flow_B, flow_C] = 18"
  by code_simp

theorem check_admissibility_iff_witness:
  "check_admissibility nx_reference flow_C [flow_B]
   \<and> TrajectoryApproach_calculate_wcrt nx_reference flow_C ([flow_B] @ [flow_C]) = di flow_C"
proof -
  have dC: "di flow_C = 21 / 2" and dB: "di flow_B = 50"
    by (simp_all add: flow_C_def flow_B_def)
  show ?thesis
    using check_admissibility_iff [of nx_reference flow_C "[flow_B]"]
    by (simp add: wcrt_C_example wcrt_B_example dC dB)
qed

section \<open>Properties of the trajectory approach\<close>

lemma interferers_eq: "get_interfering_flows_on_link l f F = ta_interferers l f F"
  by (simp add: get_interfering_flows_on_link_def ta_interferers_def shares_link_def)

lemma link_int_exact:
  "link_int f gs =
     (if list_ex (\<lambda>g. ti g = 0) gs then None
      else Some (\<Sum>g\<leftarrow>gs. of_int \<lceil>di f / ti g\<rceil> * ci g))"
  by (induction gs) auto

lemma pipeline_exact:
  "pipeline_interference f F ls =
     (if ta_raises f F ls then None
      else Some (\<Sum>l\<leftarrow>ls. \<Sum>g\<leftarrow>ta_interferers l f F. of_int \<lceil>di f / ti g\<rceil> * ci g))"
  by (induction ls) (auto simp: ta_raises_def interferers_eq link_int_exact)

lemma compute_path_wcrt_exact:
  "compute_path_wcrt f F ls =
     (if ls = [] then Some 0
      else if ta_raises f F ls then None
      else Some (ta_branch f F ls))"
  by (simp add: compute_path_wcrt_def pipeline_exact ta_branch_def hw_delay_def)

lemma branch_loop_values:
  "branch_loop nx f F (route_graph (route_links f)) (src_ip f) ds m =
     fold max (concat (map (\<lambda>d. case ta_branch_value nx f F d of None \<Rightarrow> [] | Some v \<Rightarrow> [v]) ds)) m"
proof (induction ds arbitrary: m)
  case Nil
  then show ?case by simp
next
  case (Cons d ds)
  show ?case
  proof (cases "ta_branch_value nx f F d")
    case None
    then have "branch_loop nx f F (route_graph (route_links f)) (src_ip f) (d # ds) m =
        branch_loop nx f F (route_graph (route_links f)) (src_ip f) ds m"
      by (auto simp: ta_branch_value_def compute_path_wcrt_exact Let_def
               split: sum.splits if_splits)
    then show ?thesis
      using None Cons.IH [of m] by simp
  next
    case (Some v)
    then have "branch_loop nx f F (route_graph (route_links f)) (src_ip f) (d # ds) m =
        branch_loop nx f F (route_graph (route_links f)) (src_ip f) ds (max v m)"
      by (auto simp: ta_branch_value_def compute_path_wcrt_exact Let_def max_def
               split: sum.splits if_splits)
    then show ?thesis
      using Some Cons.IH [of "max v m"] by simp
  qed
qed

lemma get_edge_no_edges: "edges G = [] \<Longrightarrow> get_edge G u v = None"
  by (simp add: get_edge_def)

lemma path_edges_no_edges: "edges G = [] \<Longrightarrow> path_edges G p = []"
  by (induction G p rule: path_edges.induct) (simp_all add: get_edge_no_edges)

lemma route_graph_Nil: "edges (route_graph []) = []"
  by (simp add: route_graph_def empty_graph_def)

lemma no_route_branch_values:
  assumes "route_links f = []"
  shows "set (ta_branch_values nx f F) \<subseteq> {0}"
proof -
  have none: "ta_branch_value nx f F d = None \<or> ta_branch_value nx f F d = Some 0" for d
    using assms path_edges_no_edges [OF route_graph_Nil]
    by (simp add: ta_branch_value_def split: sum.splits)
  have "x = 0" if mem: "x \<in> set (ta_branch_values nx f F)" for x
  proof -
    obtain d where
      "x \<in> set (case ta_branch_value nx f F d of None \<Rightarrow> [] | Some v \<Rightarrow> [v])"
      using mem by (auto simp: ta_branch_values_def)
    then show ?thesis
      using none [of d] by auto
  qed
  then show ?thesis
    by blast
qed

lemma max_branch_values:
  "get_max_branch_wcrt nx f F (src_ip f) (dst_ips f) (route_links f)
     = Max (set (0 # ta_branch_values nx f F))"
proof (cases "dst_ips f = [] \<or> route_links f = []")
  case True
  then have "set (ta_branch_values nx f F) \<subseteq> {0}"
    using no_route_branch_values [of f nx F] by (auto simp: ta_branch_values_def)
  then have "set (0 # ta_branch_values nx f F) = {0}"
    by auto
  then have "Max (set (0 # ta_branch_values nx f F)) = 0"
    by (simp only: Max_singleton)
  then show ?thesis
    using True by (simp add: get_max_branch_wcrt_def)
next
  case False
  then have "get_max_branch_wcrt nx f F (src_ip f) (dst_ips f) (route_links f)
      = fold max (ta_branch_values nx f F) 0"
    by (simp add: get_max_branch_wcrt_def branch_loop_values ta_branch_values_def)
  also have "\<dots> = Max (set (0 # ta_branch_values nx f F))"
    by (simp only: Max.set_eq_fold)
  finally show ?thesis .
qed

lemma concat_all_Some:
  "\<forall>d\<in>set ds. g d = Some (h d) \<Longrightarrow>
   concat (map (\<lambda>d. case g d of None \<Rightarrow> [] | Some v \<Rightarrow> [v]) ds) = map h ds"
  by (induction ds) simp_all

text \<open>
  Claim C8, as amended. For every flow and every candidate set the trajectory bound is
  the maximum of 0 and the branches of the destinations, plus the processing delay
  exactly when \<open>qi > 0\<close>; it is computed in one pass, without iteration. A destination
  has no branch when the path search for it fails or when a flow interfering on a link
  of its path has a zero period; the branch is 0 when the path has no link (the
  destination is the source); otherwise the branch is the one of the formula: the
  hardware delays of the path, plus \<open>ci\<close>, plus on every path link
  \<open>\<lceil>di(f) / ti(g)\<rceil> * ci(g)\<close> for every flow \<open>g\<close> of another topic that shares the link with
  priority at least that of \<open>f\<close>. So the bound is the formula of the specification when
  there is a destination, every destination is reached by a path of at least one link
  on which no interfering flow has a zero period, and the maximum is not negative.
\<close>

theorem trajectory_wcrt_formula:
  "TrajectoryApproach_calculate_wcrt nx f F =
       Max (set (0 # ta_branch_values nx f F)) + (if qi f > 0 then processing_delay f else 0)
   \<and> (dst_ips f \<noteq> []
       \<and> (\<forall>d\<in>set (dst_ips f). \<exists>p.
              shortest_path nx (route_graph (route_links f)) (src_ip f) d = Inr p
              \<and> path_edges (route_graph (route_links f)) p \<noteq> []
              \<and> \<not> ta_raises f F (path_edges (route_graph (route_links f)) p))
       \<and> 0 \<le> ta_max_branch nx f F
      \<longrightarrow> TrajectoryApproach_calculate_wcrt nx f F = TA_WCRT_spec nx f F)"
proof (intro conjI impI)
  show code: "TrajectoryApproach_calculate_wcrt nx f F =
       Max (set (0 # ta_branch_values nx f F)) + (if qi f > 0 then processing_delay f else 0)"
    by (simp only: TrajectoryApproach_calculate_wcrt_def max_branch_values)
  assume hyp: "dst_ips f \<noteq> []
       \<and> (\<forall>d\<in>set (dst_ips f). \<exists>p.
              shortest_path nx (route_graph (route_links f)) (src_ip f) d = Inr p
              \<and> path_edges (route_graph (route_links f)) p \<noteq> []
              \<and> \<not> ta_raises f F (path_edges (route_graph (route_links f)) p))
       \<and> 0 \<le> ta_max_branch nx f F"
  let ?bs = "map (\<lambda>d. ta_branch f F (ta_path nx f d)) (dst_ips f)"
  have "\<forall>d\<in>set (dst_ips f). ta_branch_value nx f F d = Some (ta_branch f F (ta_path nx f d))"
    using hyp by (fastforce simp: ta_branch_value_def ta_path_def)
  then have "ta_branch_values nx f F = ?bs"
    unfolding ta_branch_values_def by (rule concat_all_Some)
  then have "Max (set (0 # ta_branch_values nx f F)) = Max (set (0 # ?bs))"
    by simp
  also have "\<dots> = max 0 (Max (set ?bs))"
    using hyp by simp
  also have "\<dots> = ta_max_branch nx f F"
    using hyp by (simp add: ta_max_branch_def)
  finally show "TrajectoryApproach_calculate_wcrt nx f F = TA_WCRT_spec nx f F"
    using code by (simp add: TA_WCRT_spec_def)
qed

lemma flow_B_path:
  "shortest_path nx_reference (route_graph (route_links flow_B)) (src_ip flow_B) ''4''
     = Inr [''1'', ''2'', ''4'']"
  by code_simp

lemma flow_B_path_edges:
  "path_edges (route_graph (route_links flow_B)) [''1'', ''2'', ''4''] = route_124"
  by code_simp

lemma flow_B_no_raise: "\<not> ta_raises flow_B [flow_B, flow_C] route_124"
  by code_simp

lemma flow_B_max_branch: "ta_max_branch nx_reference flow_B [flow_B, flow_C] = 18"
  by code_simp

text \<open>
  On the diamond flow B is reached over 1-2-4: 10 ms of propagation, 5 ms of its own
  and on each of the two links one instance of flow C in the way.
\<close>

theorem trajectory_wcrt_formula_witness:
  "TrajectoryApproach_calculate_wcrt nx_reference flow_B [flow_B, flow_C]
     = TA_WCRT_spec nx_reference flow_B [flow_B, flow_C]
   \<and> TrajectoryApproach_calculate_wcrt nx_reference flow_B [flow_B, flow_C] = 18"
proof -
  have 1: "dst_ips flow_B \<noteq> []"
    by (simp add: flow_B_def)
  have 2: "\<forall>d\<in>set (dst_ips flow_B). \<exists>p.
        shortest_path nx_reference (route_graph (route_links flow_B)) (src_ip flow_B) d = Inr p
        \<and> path_edges (route_graph (route_links flow_B)) p \<noteq> []
        \<and> \<not> ta_raises flow_B [flow_B, flow_C] (path_edges (route_graph (route_links flow_B)) p)"
    using flow_B_path flow_B_path_edges flow_B_no_raise by (simp add: flow_B_def route_124_def)
  have 3: "0 \<le> ta_max_branch nx_reference flow_B [flow_B, flow_C]"
    by (simp add: flow_B_max_branch)
  have "TrajectoryApproach_calculate_wcrt nx_reference flow_B [flow_B, flow_C]
     = TA_WCRT_spec nx_reference flow_B [flow_B, flow_C]"
    using trajectory_wcrt_formula [of nx_reference flow_B "[flow_B, flow_C]"] 1 2 3 by blast
  then show ?thesis
    using flow_B_max_branch by (simp add: TA_WCRT_spec_def flow_B_def)
qed

text \<open>
  The formula of the specification fails for a destination that is the source itself:
  its path has no link, the formula gives the branch \<open>ci\<close>, the code gives it 0.
\<close>

theorem trajectory_wcrt_counterexample:
  "TrajectoryApproach_calculate_wcrt nx_reference flow_self [flow_self] = 0
   \<and> TA_WCRT_spec nx_reference flow_self [flow_self] = 1 / 2
   \<and> ta_branch_values nx_reference flow_self [flow_self] = [0]"
  by code_simp

section \<open>The candidate at admission time\<close>

lemma request_rt_attrs_fields:
  "route_links (request_rt_attrs d s b) = []"
  "qi (request_rt_attrs d s b) = d_qi d"
  "processing_delay (request_rt_attrs d s b) = d_processing_delay d"
  by (simp_all add: request_rt_attrs_def RTAttributes_init_def Let_def split: option.splits)

lemma no_route_not_selected:
  "route_links c = [] \<Longrightarrow> c \<notin> set (get_interfering_flows_on_link l g F)"
  by (simp add: get_interfering_flows_on_link_def shares_link_def)

lemma no_route_not_interfering:
  "route_links c = [] \<Longrightarrow>
   get_interfering_flows_on_link l g (removeAll c F) = get_interfering_flows_on_link l g F"
  by (induction F) (auto simp: get_interfering_flows_on_link_def shares_link_def)

lemma pipeline_removeAll:
  "route_links c = [] \<Longrightarrow>
   pipeline_interference g (removeAll c F) ls = pipeline_interference g F ls"
proof (induction ls)
  case Nil
  then show ?case by simp
next
  case (Cons l ls)
  then show ?case
    by (simp add: no_route_not_interfering [of c l g F] split: option.splits)
qed

lemma compute_removeAll:
  "route_links c = [] \<Longrightarrow> compute_path_wcrt g (removeAll c F) ls = compute_path_wcrt g F ls"
  by (simp add: compute_path_wcrt_def pipeline_removeAll)

lemma branch_loop_removeAll:
  "route_links c = [] \<Longrightarrow>
   branch_loop nx g (removeAll c F) G s ds m = branch_loop nx g F G s ds m"
  by (induction ds arbitrary: m) (simp_all add: compute_removeAll split: sum.splits option.splits)

lemma TA_removeAll:
  "route_links c = [] \<Longrightarrow>
   TrajectoryApproach_calculate_wcrt nx g (removeAll c F) = TrajectoryApproach_calculate_wcrt nx g F"
  by (simp add: TrajectoryApproach_calculate_wcrt_def get_max_branch_wcrt_def branch_loop_removeAll)

lemma TA_no_route:
  "route_links c = [] \<Longrightarrow>
   TrajectoryApproach_calculate_wcrt nx c F = (if qi c > 0 then processing_delay c else 0)"
  by (simp add: TrajectoryApproach_calculate_wcrt_def get_max_branch_wcrt_def)

lemma returning_True: "fst (returning True r) \<noteq> Inr False"
  by (simp add: returning_def split: option.splits)

lemma register_rejects_iff:
  "fst (register_rt_flow env db topic d s b) = Inr False \<longleftrightarrow>
     \<not> check_admissibility (env_nx env) (request_rt_attrs d s b)
          (map snd (db_flows (add_flow db topic (request_rt_attrs d s b))))"
  by (simp add: register_rt_flow_def Let_def get_all_flows_def returning_True
      split: sum.splits)

text \<open>
  Claim C5. The flow that \<^verbatim>\<open>register_rt_flow\<close> submits to admission control has no
  route yet. Its own trajectory bound is therefore its processing delay when \<open>qi > 0\<close>
  and 0 otherwise; no link ever selects it as an interfering flow; the bound of any flow
  is the same with it in the set or without it; and the registration is rejected exactly
  when the admission check on this route-less flow fails.
\<close>

theorem candidate_has_no_route:
  "route_links (request_rt_attrs d s b) = []
   \<and> TrajectoryApproach_calculate_wcrt nx (request_rt_attrs d s b) F
       = (if d_qi d > 0 then d_processing_delay d else 0)
   \<and> request_rt_attrs d s b \<notin> set (get_interfering_flows_on_link l g F)
   \<and> TrajectoryApproach_calculate_wcrt nx g (removeAll (request_rt_attrs d s b) F)
       = TrajectoryApproach_calculate_wcrt nx g F
   \<and> (fst (register_rt_flow env db topic d s b) = Inr False \<longleftrightarrow>
        \<not> check_admissibility (env_nx env) (request_rt_attrs d s b)
             (map snd (db_flows (add_flow db topic (request_rt_attrs d s b)))))"
  using TA_no_route [of "request_rt_attrs d s b" nx F]
    TA_removeAll [of "request_rt_attrs d s b" nx g F]
    no_route_not_selected [of "request_rt_attrs d s b" l g F]
    register_rejects_iff [of env db topic d s b]
  by (simp add: request_rt_attrs_fields)

theorem candidate_has_no_route_witness:
  "TrajectoryApproach_calculate_wcrt nx_reference (request_rt_attrs request_E ''1'' None)
      [flow_B, request_rt_attrs request_E ''1'' None] = 3 / 2
   \<and> TrajectoryApproach_calculate_wcrt nx_reference flow_B
        [flow_B, request_rt_attrs request_E ''1'' None]
      = TrajectoryApproach_calculate_wcrt nx_reference flow_B [flow_B]"
proof -
  have "request_rt_attrs request_E ''1'' None \<noteq> flow_B"
    by (simp add: request_rt_attrs_def RTAttributes_init_def request_E_def flow_B_def)
  then show ?thesis
    using candidate_has_no_route [of request_E "''1''" None nx_reference
        "[flow_B, request_rt_attrs request_E ''1'' None]" _ flow_B]
    by (simp add: request_E_def)
qed

section \<open>Properties of the routing graph\<close>

lemma same_edge_refl: "same_edge d e e"
  by (simp add: same_edge_def)

lemma same_edge_sym: "same_edge d e e' \<Longrightarrow> same_edge d e' e"
  by (cases e; cases e') (auto simp: same_edge_def)

lemma same_edge_trans: "same_edge d e e' \<Longrightarrow> same_edge d e' e'' \<Longrightarrow> same_edge d e e''"
  by (cases e; cases e'; cases e'') (auto simp: same_edge_def)

lemma find_upd_edge:
  "map_option snd (find (\<lambda>x. same_edge d e' (fst x)) (upd_edge d e a es)) =
     (if same_edge d e' e then Some a
      else map_option snd (find (\<lambda>x. same_edge d e' (fst x)) es))"
proof (induction es)
  case Nil
  then show ?case by simp
next
  case (Cons x es)
  show ?case
  proof (cases "same_edge d e (fst x)")
    case True
    show ?thesis
    proof (cases "same_edge d e' e")
      case e'e: True
      then have "same_edge d e' (fst x)"
        using True same_edge_trans by blast
      then show ?thesis using True e'e by simp
    next
      case False
      then have "\<not> same_edge d e' (fst x)"
        using True same_edge_trans same_edge_sym by blast
      then show ?thesis using True False by simp
    qed
  next
    case False
    show ?thesis
    proof (cases "same_edge d e' (fst x)")
      case True
      then have "\<not> same_edge d e' e"
        using False same_edge_trans same_edge_sym by blast
      then show ?thesis using True False by simp
    next
      case nx: False
      then show ?thesis using False Cons.IH by simp
    qed
  qed
qed

lemma get_edge_add_edge:
  "get_edge (add_edge G u v a) u' v' =
     (if same_edge (directed G) (u', v') (u, v) then Some a else get_edge G u' v')"
  by (simp add: get_edge_def add_edge_def find_upd_edge)

lemma build_graph_snoc:
  "build_graph (ls @ [l]) =
     add_edge (build_graph ls) (src l) (dst l) \<lparr>weight = final_cost l, link_obj = l\<rparr>"
  by (simp add: build_graph_def)

lemma directed_add_edge: "directed (add_edge G u v a) = directed G"
  by (simp add: add_edge_def)

lemma directed_build_graph: "directed (build_graph ls) = False"
proof (induction ls rule: rev_induct)
  case Nil
  then show ?case by (simp add: build_graph_def empty_graph_def)
next
  case (snoc l ls)
  then show ?case by (simp only: build_graph_snoc directed_add_edge)
qed

lemma get_edge_build_graph_last:
  "list_all (\<lambda>l'. \<not> same_edge False (src l, dst l) (src l', dst l')) ys \<Longrightarrow>
   get_edge (build_graph (xs @ l # ys)) (src l) (dst l)
     = Some \<lparr>weight = final_cost l, link_obj = l\<rparr>"
proof (induction ys rule: rev_induct)
  case Nil
  have "build_graph (xs @ [l]) =
      add_edge (build_graph xs) (src l) (dst l) \<lparr>weight = final_cost l, link_obj = l\<rparr>"
    by (rule build_graph_snoc)
  then show ?case
    by (simp add: get_edge_add_edge same_edge_refl)
next
  case (snoc y ys)
  have "build_graph (xs @ l # ys @ [y]) = build_graph ((xs @ l # ys) @ [y])"
    by simp
  also have "\<dots> = add_edge (build_graph (xs @ l # ys)) (src y) (dst y)
      \<lparr>weight = final_cost y, link_obj = y\<rparr>"
    by (rule build_graph_snoc)
  finally have "build_graph (xs @ l # ys @ [y]) =
      add_edge (build_graph (xs @ l # ys)) (src y) (dst y)
        \<lparr>weight = final_cost y, link_obj = y\<rparr>" .
  moreover have "\<not> same_edge False (src l, dst l) (src y, dst y)"
    and "get_edge (build_graph (xs @ l # ys)) (src l) (dst l)
       = Some \<lparr>weight = final_cost l, link_obj = l\<rparr>"
    using snoc by simp_all
  ultimately show ?case
    by (simp add: get_edge_add_edge directed_build_graph)
qed

lemma utilization_lt_1: "utilization l < 1"
  by (simp add: utilization_def Let_def)

lemma utilization_cases:
  "utilization l =
     (if bw_capacity l > 0 \<and> bw_used l / bw_capacity l < 1
      then bw_used l / bw_capacity l else 99 / 100)"
  by (simp add: utilization_def Let_def not_less)

lemma utilization_min:
  assumes "0 < bw_capacity l"
    and "\<not> (99 / 100 < bw_used l / bw_capacity l \<and> bw_used l / bw_capacity l < 1)"
  shows "utilization l = min (bw_used l / bw_capacity l) (99 / 100)"
proof -
  define r where "r = bw_used l / bw_capacity l"
  have u: "utilization l = (if r < 1 then r else 99 / 100)"
    using assms(1) by (simp add: utilization_cases r_def)
  have "\<not> (99 / 100 < r \<and> r < 1)"
    using assms(2) by (simp add: r_def)
  then have "(if r < 1 then r else 99 / 100) = min r (99 / 100)"
    by (auto simp: min_def)
  then show ?thesis
    using u by (simp add: r_def)
qed

text \<open>
  Claim C6, as amended. The weight computed for a link is its cost
  \<open>prop_delay + switch_delay + proc_delay\<close> divided by \<open>1 - u\<close>, where \<open>u\<close> is
  \<open>bw_used / bw_capacity\<close> when the capacity is positive and that ratio is below 1, and
  0.99 otherwise. So \<open>1 - u\<close> is positive and the weight is finite; a capacity of zero
  gives \<open>u = 0.99\<close>; and \<open>u\<close> is \<open>min (bw_used / bw_capacity) 0.99\<close> for a positive
  capacity unless the ratio lies strictly between 0.99 and 1. The graph edge between two
  nodes carries the weight of the last link of the snapshot that joins them.
\<close>

theorem edge_weight:
  "final_cost l = (prop_delay l + switch_delay l + proc_delay l) / (1 - utilization l)
   \<and> utilization l =
       (if bw_capacity l > 0 \<and> bw_used l / bw_capacity l < 1
        then bw_used l / bw_capacity l else 99 / 100)
   \<and> 0 < 1 - utilization l
   \<and> (bw_capacity l = 0 \<longrightarrow> utilization l = 99 / 100)
   \<and> (0 < bw_capacity l \<and> \<not> (99 / 100 < bw_used l / bw_capacity l \<and> bw_used l / bw_capacity l < 1)
        \<longrightarrow> utilization l = min (bw_used l / bw_capacity l) (99 / 100))
   \<and> (list_all (\<lambda>l'. \<not> same_edge False (src l, dst l) (src l', dst l')) ys \<longrightarrow>
        get_edge (build_graph (xs @ l # ys)) (src l) (dst l)
          = Some \<lparr>weight = final_cost l, link_obj = l\<rparr>)"
proof -
  have 1: "final_cost l = (prop_delay l + switch_delay l + proc_delay l) / (1 - utilization l)"
    by (simp add: final_cost_def)
  have 3: "0 < 1 - utilization l"
    using utilization_lt_1 [of l] by simp
  have 4: "bw_capacity l = 0 \<longrightarrow> utilization l = 99 / 100"
    by (simp add: utilization_cases)
  show ?thesis
    using 1 utilization_cases [of l] 3 4 utilization_min [of l]
      get_edge_build_graph_last [of l ys xs]
    by blast
qed

lemma tri_first_link: "links_tri = [] @ mk_link ''1'' ''2'' 1 5 # [mk_link ''2'' ''3'' 1 5, mk_link ''1'' ''3'' 2 5]"
  by (simp add: links_tri_def)

lemma tri_first_link_last:
  "list_all (\<lambda>l'. \<not> same_edge False (src (mk_link ''1'' ''2'' 1 5), dst (mk_link ''1'' ''2'' 1 5))
                      (src l', dst l'))
     [mk_link ''2'' ''3'' 1 5, mk_link ''1'' ''3'' 2 5]"
  by code_simp

lemma tri_first_link_cost:
  "final_cost (mk_link ''1'' ''2'' 1 5) = 5" "bw_capacity link_dead = 0"
  by code_simp+

theorem edge_weight_witness:
  "get_edge (build_graph links_tri) ''1'' ''2''
     = Some \<lparr>weight = 5, link_obj = mk_link ''1'' ''2'' 1 5\<rparr>
   \<and> utilization link_dead = 99 / 100
   \<and> utilization (mk_link ''1'' ''2'' 1 5) = min (0 / 100) (99 / 100)"
proof -
  have a: "get_edge (build_graph links_tri) ''1'' ''2''
     = Some \<lparr>weight = 5, link_obj = mk_link ''1'' ''2'' 1 5\<rparr>"
    using edge_weight [of "mk_link ''1'' ''2'' 1 5" "[mk_link ''2'' ''3'' 1 5, mk_link ''1'' ''3'' 2 5]" "[]"]
      tri_first_link_last tri_first_link_cost(1)
    by (simp add: tri_first_link mk_link_def)
  have b: "utilization link_dead = 99 / 100"
    using edge_weight [of link_dead] tri_first_link_cost(2) by blast
  have c: "utilization (mk_link ''1'' ''2'' 1 5) = min (0 / 100) (99 / 100)"
    using edge_weight [of "mk_link ''1'' ''2'' 1 5"] by (simp add: mk_link_def)
  show ?thesis
    using a b c by blast
qed

text \<open>
  At 99.5 percent utilisation the code divides by 0.005 and the edge weighs 1000, where
  the capped utilisation of the specification gives 500.
\<close>

theorem edge_weight_counterexample:
  "get_edge (build_graph [link_busy]) ''1'' ''2''
     = Some \<lparr>weight = 1000, link_obj = link_busy\<rparr>
   \<and> spec_weight link_busy = 500"
  by code_simp

section \<open>Properties of the rendezvous-point election\<close>

lemma max_dist_loop_reach:
  "reaches_all nx G subs n \<Longrightarrow>
   max_dist_loop nx G n subs acc = Inr (fold max (map (sub_dist nx G n) subs) acc)"
proof (induction subs arbitrary: acc)
  case Nil
  then show ?case by simp
next
  case (Cons s subs)
  then obtain d where d: "dijkstra_path_length nx G n s = Inr d"
    by (auto simp: reaches_all_def split: sum.splits)
  have step: "max_dist_loop nx G n (s # subs) acc = max_dist_loop nx G n subs (max d acc)"
    using d by (auto simp: max_def)
  have sd: "sub_dist nx G n s = d"
    using d by (simp add: sub_dist_def)
  have "reaches_all nx G subs n"
    using Cons.prems by (simp add: reaches_all_def)
  then have "max_dist_loop nx G n subs (max d acc)
      = Inr (fold max (map (sub_dist nx G n) subs) (max d acc))"
    by (rule Cons.IH)
  then show ?case
    unfolding step by (simp add: sd)
qed

lemma max_dist_loop_nopath:
  assumes "\<forall>s\<in>set subs. (\<exists>d. dijkstra_path_length nx G n s = Inr d)
             \<or> dijkstra_path_length nx G n s = Inl NetworkXNoPath"
    and "\<not> reaches_all nx G subs n"
  shows "max_dist_loop nx G n subs acc = Inl NetworkXNoPath"
  using assms
proof (induction subs arbitrary: acc)
  case Nil
  then show ?case by (simp add: reaches_all_def)
next
  case (Cons s subs)
  show ?case
  proof (cases "dijkstra_path_length nx G n s")
    case (Inl e)
    then have "e = NetworkXNoPath" using Cons.prems(1) by auto
    then show ?thesis using Inl by simp
  next
    case (Inr d)
    then have "\<not> reaches_all nx G subs n"
      using Cons.prems(2) by (simp add: reaches_all_def)
    then show ?thesis
      using Cons.IH Cons.prems(1) Inr by simp
  qed
qed

lemma fold_max_nonneg:
  assumes "xs \<noteq> []" and "\<forall>x\<in>set xs. (0::real) \<le> x"
  shows "fold max xs 0 = Max (set xs)"
proof -
  have "fold max xs 0 = Max (set (0 # xs))"
    by (simp only: Max.set_eq_fold)
  also have "\<dots> = max 0 (Max (set xs))"
    using assms(1) by simp
  also have "\<dots> = Max (set xs)"
  proof -
    obtain x where "x \<in> set xs" using assms(1) by (cases xs) auto
    then have "0 \<le> x" "x \<le> Max (set xs)" using assms(2) by auto
    then show ?thesis by simp
  qed
  finally show ?thesis .
qed

lemma rp_loop_foldl:
  assumes "\<forall>n\<in>set ns. max_dist_loop nx G n subs 0
             = (if R n then Inr (e n) else Inl NetworkXNoPath)"
  shows "rp_loop nx G subs ns best
           = Inr (foldl (\<lambda>b n. rp_update b n (e n)) best (filter R ns))"
  using assms by (induction ns arbitrary: best) simp_all

lemma rp_update_Some: "\<exists>r. rp_update best c m = Some r"
  by (simp add: rp_update_def split: option.splits)

lemma foldl_rp_update:
  "case foldl (\<lambda>b n. rp_update b n (e n)) best cs of
     None \<Rightarrow> best = None \<and> cs = []
   | Some r \<Rightarrow>
       (\<forall>n'\<in>set cs. snd r \<le> e n') \<and> (\<forall>b. best = Some b \<longrightarrow> snd r \<le> snd b)
       \<and> (best = Some r
          \<or> (fst r \<in> set cs \<and> snd r = e (fst r) \<and> (\<forall>b. best = Some b \<longrightarrow> snd r < snd b)
              \<and> (\<forall>n'\<in>set (takeWhile (\<lambda>x. x \<noteq> fst r) cs). snd r < e n')))"
proof (induction cs arbitrary: best)
  case Nil
  then show ?case by (simp split: option.splits)
next
  case (Cons c cs)
  let ?b' = "rp_update best c (e c)"
  obtain r' where b': "?b' = Some r'"
    using rp_update_Some by blast
  have r'_le: "snd r' \<le> e c" and r'_best: "\<forall>b. best = Some b \<longrightarrow> snd r' \<le> snd b"
    and r'_cases: "(r' = (c, e c) \<and> (\<forall>b. best = Some b \<longrightarrow> e c < snd b)) \<or> best = Some r'"
    using b' by (cases best; auto simp: rp_update_def split: if_splits)+
  from Cons.IH [of ?b'] b' obtain r where
    r: "foldl (\<lambda>b n. rp_update b n (e n)) ?b' cs = Some r"
    by (cases "foldl (\<lambda>b n. rp_update b n (e n)) ?b' cs") auto
  from Cons.IH [of ?b'] r b' have
    le_cs: "\<forall>n'\<in>set cs. snd r \<le> e n'" and le_r': "snd r \<le> snd r'"
    and alt: "r' = r \<or> (fst r \<in> set cs \<and> snd r = e (fst r) \<and> snd r < snd r'
              \<and> (\<forall>n'\<in>set (takeWhile (\<lambda>x. x \<noteq> fst r) cs). snd r < e n'))"
    by auto
  have 1: "\<forall>n'\<in>set (c # cs). snd r \<le> e n'"
    using le_cs le_r' r'_le by auto
  have 2: "\<forall>b. best = Some b \<longrightarrow> snd r \<le> snd b"
    using le_r' r'_best by fastforce
  have 3: "best = Some r
          \<or> (fst r \<in> set (c # cs) \<and> snd r = e (fst r) \<and> (\<forall>b. best = Some b \<longrightarrow> snd r < snd b)
              \<and> (\<forall>n'\<in>set (takeWhile (\<lambda>x. x \<noteq> fst r) (c # cs)). snd r < e n'))"
  proof (cases "r' = r")
    case True
    show ?thesis
    proof (cases "best = Some r'")
      case bs: True
      then show ?thesis using True by simp
    next
      case False
      then have "r' = (c, e c)" "\<forall>b. best = Some b \<longrightarrow> e c < snd b"
        using r'_cases by auto
      then show ?thesis using True by auto
    qed
  next
    case False
    then have ch: "fst r \<in> set cs" "snd r = e (fst r)" "snd r < snd r'"
      "\<forall>n'\<in>set (takeWhile (\<lambda>x. x \<noteq> fst r) cs). snd r < e n'"
      using alt by auto
    have "\<forall>b. best = Some b \<longrightarrow> snd r < snd b"
      using ch(3) r'_best by fastforce
    moreover have "snd r < e c"
      using ch(3) r'_le by simp
    ultimately show ?thesis
      using ch by auto
  qed
  show ?case
    using r 1 2 3 by simp
qed

lemma takeWhile_filter_neq:
  "R n \<Longrightarrow> set (takeWhile (\<lambda>x. x \<noteq> n) (filter R ns))
     = {x \<in> set (takeWhile (\<lambda>x. x \<noteq> n) ns). R x}"
  by (induction ns) auto


text \<open>
  Claim C7, as amended. Let the subscribers present in the graph be not empty, let every
  distance query from a graph node to such a subscriber either return a non-negative
  distance or raise \<^verbatim>\<open>NetworkXNoPath\<close>, and let some node reach all of them. Then
  \<^verbatim>\<open>select_optimal_rp\<close> returns a node that reaches all subscribers and whose
  largest distance to a subscriber is least among such nodes; among the nodes that
  attain the minimum it is the one that entered the graph first.
\<close>

theorem select_optimal_rp_first_minimum:
  fixes nx links subscribers
  defines "G \<equiv> build_graph links"
  defines "valid \<equiv> filter (has_node (build_graph links)) subscribers"
  assumes subs: "valid \<noteq> []"
    and lib: "\<forall>n\<in>set (nodes G). \<forall>s\<in>set valid.
        (\<exists>d. 0 \<le> d \<and> dijkstra_path_length nx G n s = Inr d)
        \<or> dijkstra_path_length nx G n s = Inl NetworkXNoPath"
    and some: "\<exists>n\<in>set (nodes G). reaches_all nx G valid n"
  shows "\<exists>n. select_optimal_rp nx links subscribers = Inr (Some n)
           \<and> n \<in> set (nodes G) \<and> reaches_all nx G valid n
           \<and> (\<forall>n'\<in>set (nodes G). reaches_all nx G valid n' \<longrightarrow>
                 eccentricity nx G valid n \<le> eccentricity nx G valid n')
           \<and> (\<forall>n'\<in>set (takeWhile (\<lambda>x. x \<noteq> n) (nodes G)). reaches_all nx G valid n' \<longrightarrow>
                 eccentricity nx G valid n < eccentricity nx G valid n')"
proof -
  let ?R = "reaches_all nx G valid"
  let ?e = "eccentricity nx G valid"
  have E: "\<forall>n\<in>set (nodes G). max_dist_loop nx G n valid 0
             = (if ?R n then Inr (?e n) else Inl NetworkXNoPath)"
  proof
    fix n assume n: "n \<in> set (nodes G)"
    show "max_dist_loop nx G n valid 0 = (if ?R n then Inr (?e n) else Inl NetworkXNoPath)"
    proof (cases "?R n")
      case True
      have "\<forall>x\<in>set (map (sub_dist nx G n) valid). 0 \<le> x"
        using lib n by (fastforce simp: sub_dist_def)
      then have "fold max (map (sub_dist nx G n) valid) 0 = ?e n"
        using fold_max_nonneg [of "map (sub_dist nx G n) valid"] subs
        by (simp add: eccentricity_def)
      then show ?thesis
        using True max_dist_loop_reach [OF True, of 0] by simp
    next
      case False
      have "\<forall>s\<in>set valid. (\<exists>d. dijkstra_path_length nx G n s = Inr d)
             \<or> dijkstra_path_length nx G n s = Inl NetworkXNoPath"
        using lib n by blast
      then show ?thesis
        using False max_dist_loop_nopath [of valid nx G n 0] by simp
    qed
  qed
  let ?cs = "filter ?R (nodes G)"
  let ?res = "foldl (\<lambda>b n. rp_update b n (?e n)) None ?cs"
  have loop: "rp_loop nx G valid (nodes G) None = Inr ?res"
    using rp_loop_foldl [OF E] .
  have cs: "?cs \<noteq> []"
    using some by (auto simp: filter_empty_conv)
  have nodes: "nodes G \<noteq> []"
    using some by auto
  obtain r where r: "?res = Some r"
    using foldl_rp_update [where e = ?e and best = None and cs = ?cs] cs by (cases ?res) auto
  from foldl_rp_update [where e = ?e and best = None and cs = ?cs] r have
    min: "\<forall>n'\<in>set ?cs. snd r \<le> ?e n'"
    and mem: "fst r \<in> set ?cs" and val: "snd r = ?e (fst r)"
    and first: "\<forall>n'\<in>set (takeWhile (\<lambda>x. x \<noteq> fst r) ?cs). snd r < ?e n'"
    by auto
  have Rr: "?R (fst r)" and in_nodes: "fst r \<in> set (nodes G)"
    using mem by auto
  have sel: "select_optimal_rp nx links subscribers = Inr (Some (fst r))"
    using loop r nodes subs
    by (simp add: select_optimal_rp_def Let_def G_def valid_def)
  have first': "\<forall>n'\<in>set (takeWhile (\<lambda>x. x \<noteq> fst r) (nodes G)). ?R n' \<longrightarrow> ?e (fst r) < ?e n'"
    using first val takeWhile_filter_neq [where R = ?R and n = "fst r" and ns = "nodes G"] Rr by auto
  have min': "\<forall>n'\<in>set (nodes G). ?R n' \<longrightarrow> ?e (fst r) \<le> ?e n'"
    using min val by auto
  show ?thesis
    using sel in_nodes Rr min' first' by blast
qed

lemma tri_nodes: "nodes (build_graph links_tri) = [''1'', ''2'', ''3'']"
  by code_simp

lemma tri_valid: "filter (has_node (build_graph links_tri)) [''2'', ''3''] = [''2'', ''3'']"
  by code_simp

lemma tri_distances:
  "dijkstra_path_length nx_reference (build_graph links_tri) ''1'' ''2'' = Inr 5"
  "dijkstra_path_length nx_reference (build_graph links_tri) ''1'' ''3'' = Inr 5"
  "dijkstra_path_length nx_reference (build_graph links_tri) ''2'' ''2'' = Inr 0"
  "dijkstra_path_length nx_reference (build_graph links_tri) ''2'' ''3'' = Inr 5"
  "dijkstra_path_length nx_reference (build_graph links_tri) ''3'' ''2'' = Inr 5"
  "dijkstra_path_length nx_reference (build_graph links_tri) ''3'' ''3'' = Inr 0"
  by code_simp+

lemma tri_rp: "select_optimal_rp nx_reference links_tri [''2'', ''3''] = Inr (Some ''1'')"
  by code_simp

theorem select_optimal_rp_first_minimum_witness:
  "select_optimal_rp nx_reference links_tri [''2'', ''3''] = Inr (Some ''1'')
   \<and> (\<exists>n. select_optimal_rp nx_reference links_tri [''2'', ''3''] = Inr (Some n)
        \<and> (\<forall>n'\<in>set (nodes (build_graph links_tri)).
              reaches_all nx_reference (build_graph links_tri) [''2'', ''3''] n' \<longrightarrow>
              eccentricity nx_reference (build_graph links_tri) [''2'', ''3''] n
                \<le> eccentricity nx_reference (build_graph links_tri) [''2'', ''3''] n'))"
proof -
  have 1: "filter (has_node (build_graph links_tri)) [''2'', ''3''] \<noteq> []"
    unfolding tri_valid by simp
  have 2: "\<forall>n\<in>set (nodes (build_graph links_tri)).
      \<forall>s\<in>set (filter (has_node (build_graph links_tri)) [''2'', ''3'']).
        (\<exists>d. 0 \<le> d \<and> dijkstra_path_length nx_reference (build_graph links_tri) n s = Inr d)
        \<or> dijkstra_path_length nx_reference (build_graph links_tri) n s = Inl NetworkXNoPath"
    unfolding tri_valid tri_nodes by (simp add: tri_distances)
  have 3: "\<exists>n\<in>set (nodes (build_graph links_tri)).
      reaches_all nx_reference (build_graph links_tri)
        (filter (has_node (build_graph links_tri)) [''2'', ''3'']) n"
    unfolding tri_valid tri_nodes by (simp add: reaches_all_def tri_distances)
  show ?thesis
    using select_optimal_rp_first_minimum [OF 1 2 3] tri_rp
    unfolding tri_valid by blast
qed

text \<open>
  With the same triangle listed in another order the three nodes still tie, and the
  election returns node 2, not the lowest node id.
\<close>

theorem select_optimal_rp_counterexample:
  "select_optimal_rp nx_reference links_tri_231 [''2'', ''3''] = Inr (Some ''2'')
   \<and> eccentricity nx_reference (build_graph links_tri_231) [''2'', ''3''] ''1'' = 5
   \<and> eccentricity nx_reference (build_graph links_tri_231) [''2'', ''3''] ''2'' = 5
   \<and> eccentricity nx_reference (build_graph links_tri_231) [''2'', ''3''] ''3'' = 5"
  by code_simp

section \<open>Properties of path calculation\<close>

text \<open>
  Claim C10. \<^verbatim>\<open>calculate_path\<close> returns the empty list, and raises nothing, when the
  source is not a node of the graph, when no destination is a node of the graph, when
  the one destination in the graph cannot be reached (the search raises
  \<^verbatim>\<open>NetworkXNoPath\<close>), and when the one destination is the source itself, for which
  the search returns the path of the single node and \<^verbatim>\<open>_nodes_to_links\<close> finds no
  link.
\<close>

theorem calculate_path_empty:
  "(\<not> has_node (build_graph links) s \<longrightarrow> calculate_path nx links s dsts = Inr [])
   \<and> (list_all (\<lambda>d. \<not> has_node (build_graph links) d) dsts \<longrightarrow>
        calculate_path nx links s dsts = Inr [])
   \<and> (filter (has_node (build_graph links)) dsts = [d]
        \<and> dijkstra_path nx (build_graph links) s d = Inl NetworkXNoPath \<longrightarrow>
        calculate_path nx links s dsts = Inr [])
   \<and> (has_node (build_graph links) s \<and> dijkstra_path nx (build_graph links) s s = Inr [s] \<longrightarrow>
        calculate_path nx links s [s] = Inr [])
   \<and> nodes_to_links (build_graph links) [s] = []"
proof -
  have "filter (has_node (build_graph links)) dsts = []"
    if "list_all (\<lambda>d. \<not> has_node (build_graph links) d) dsts"
    using that by (simp add: list_all_iff filter_empty_conv)
  then show ?thesis
    by (simp add: calculate_path_def Let_def nodes_to_links_def)
qed

lemma islands_facts:
  "\<not> has_node (build_graph links_two_islands) ''9''"
  "list_all (\<lambda>d. \<not> has_node (build_graph links_two_islands) d) [''8'', ''9'']"
  "filter (has_node (build_graph links_two_islands)) [''4'', ''9''] = [''4'']"
  "dijkstra_path nx_reference (build_graph links_two_islands) ''1'' ''4'' = Inl NetworkXNoPath"
  "has_node (build_graph links_two_islands) ''1''"
  "dijkstra_path nx_reference (build_graph links_two_islands) ''1'' ''1'' = Inr [''1'']"
  by code_simp+

theorem calculate_path_empty_witness:
  "calculate_path nx_reference links_two_islands ''9'' [''2''] = Inr []
   \<and> calculate_path nx_reference links_two_islands ''1'' [''8'', ''9''] = Inr []
   \<and> calculate_path nx_reference links_two_islands ''1'' [''4'', ''9''] = Inr []
   \<and> calculate_path nx_reference links_two_islands ''1'' [''1''] = Inr []"
  using calculate_path_empty [of links_two_islands "''9''" nx_reference "[''2'']"]
    calculate_path_empty [of links_two_islands "''1''" nx_reference "[''8'', ''9'']"]
    calculate_path_empty [of links_two_islands "''1''" nx_reference "[''4'', ''9'']" "''4''"]
    calculate_path_empty [of links_two_islands "''1''" nx_reference "[''1'']"]
    islands_facts
  by blast

section \<open>Properties of the flow orchestration\<close>

lemma map_of_dict_set:
  "map_of (dict_set k v xs) k' = (if k' = k then Some v else map_of xs k')"
  by (induction xs) auto

lemma get_flow_add_flow:
  "get_flow (add_flow db topic f) topic' = (if topic' = topic then Some f else get_flow db topic')"
  by (simp add: get_flow_def add_flow_def map_of_dict_set)

lemma db_links_add_flow: "db_links (add_flow db topic f) = db_links db"
  by (simp add: add_flow_def)

lemma db_subscribers_add_flow: "db_subscribers (add_flow db topic f) = db_subscribers db"
  by (simp add: add_flow_def)

lemma db_links_add_subscriber: "db_links (add_subscriber db topic sub) = db_links db"
  by (simp add: add_subscriber_def)

lemma db_links_commit_tree: "db_links (snd (commit_tree env db topic f ls)) = db_links db"
  by (simp add: commit_tree_def db_links_add_flow split: sum.splits)

lemma snd_returning: "snd (returning b r) = snd r"
  by (simp add: returning_def split: option.splits)

lemma db_links_register:
  "db_links (snd (register_rt_flow env db topic d s b)) = db_links db"
  by (simp add: register_rt_flow_def Let_def snd_returning db_links_commit_tree
      db_links_add_flow split: sum.splits)

lemma db_links_handle:
  "db_links (snd (handle_new_subscriber env db topic sub)) = db_links db"
  by (simp add: handle_new_subscriber_def Let_def db_links_commit_tree db_links_add_flow
      db_links_add_subscriber split: sum.splits option.splits)

text \<open>
  Claim C4, as amended. Neither a flow registration nor a subscriber join changes any
  link of the registry: after either, every link has the \<open>bw_used\<close> it had before. The
  code has no bandwidth accounting.
\<close>

theorem bw_used_never_changes:
  "db_links (snd (register_rt_flow env db topic d s b)) = db_links db
   \<and> map (\<lambda>x. bw_used (snd x)) (db_links (snd (register_rt_flow env db topic d s b)))
       = map (\<lambda>x. bw_used (snd x)) (db_links db)
   \<and> db_links (snd (handle_new_subscriber env db topic sub)) = db_links db
   \<and> map (\<lambda>x. bw_used (snd x)) (db_links (snd (handle_new_subscriber env db topic sub)))
       = map (\<lambda>x. bw_used (snd x)) (db_links db)"
  by (simp add: db_links_register db_links_handle)

text \<open>
  On a registry with one link and no flow the invariant holds. Registering flow D
  succeeds and routes it over the link, whose \<open>bw_used\<close> stays 0 while the flow's
  \<open>bwi\<close> is 1.
\<close>

theorem bw_used_counterexample:
  "bw_accounted db_one_link
   \<and> fst (register_rt_flow env_reference db_one_link ''topic/D'' request_D ''1'' None) = Inr True
   \<and> map_option route_links
       (get_flow (snd (register_rt_flow env_reference db_one_link ''topic/D'' request_D ''1'' None))
          ''topic/D'')
       = Some [mk_link ''1'' ''2'' 1 5]
   \<and> \<not> bw_accounted
         (snd (register_rt_flow env_reference db_one_link ''topic/D'' request_D ''1'' None))"
  by code_simp

text \<open>
  Claim C2. The claim is that a rejected registration changes nothing and leaves the
  flow out of the registry. The code stores the flow before it runs the admission check
  and returns on rejection without taking it out: the rejected flow \<open>topic/late\<close> is in
  the registry afterwards, and flow D, which is admitted on the registry before, is
  rejected on the registry after, because the stored flow misses its own deadline.
\<close>

theorem rejected_flow_is_stored:
  "fst (register_rt_flow env_reference db_one_link ''topic/late'' request_late ''1'' None)
     = Inr False
   \<and> get_flow (snd (register_rt_flow env_reference db_one_link ''topic/late'' request_late ''1'' None))
       ''topic/late''
     = Some (request_rt_attrs request_late ''1'' None)
   \<and> get_flow db_one_link ''topic/late'' = None
   \<and> fst (register_rt_flow env_reference db_one_link ''topic/D'' request_D ''1'' None) = Inr True
   \<and> fst (register_rt_flow env_reference
            (snd (register_rt_flow env_reference db_one_link ''topic/late'' request_late ''1'' None))
            ''topic/D'' request_D ''1'' None) = Inr False"
  by code_simp


lemma get_subscribers_add_subscriber:
  "sub \<in> set (get_subscribers (add_subscriber db topic sub) topic)"
  by (simp add: get_subscribers_def add_subscriber_def map_of_dict_set add_unique_def)

lemma get_subscribers_add_flow:
  "get_subscribers (add_flow db topic f) t = get_subscribers db t"
  by (simp add: get_subscribers_def add_flow_def)

lemma get_flow_add_subscriber:
  "get_flow db topic = Some f \<Longrightarrow>
   get_flow (add_subscriber db topic sub) topic
     = Some (f\<lparr>dst_ips := add_unique sub (dst_ips f)\<rparr>)"
  by (simp add: get_flow_def add_subscriber_def map_of_dict_set)

lemma install_keeps_route:
  "install_multicast_tree env f ls = Inr r \<Longrightarrow>
   route_links (fst r) = route_links f \<and> dst_ips (fst r) = dst_ips f \<and> src_ip (fst r) = src_ip f"
  by (auto simp: install_multicast_tree_def split: sum.splits if_splits)

lemma commit_tree_flow:
  "\<exists>f'. get_flow (snd (commit_tree env (add_flow db topic f) topic f ls)) topic = Some f'
        \<and> route_links f' = route_links f \<and> dst_ips f' = dst_ips f"
proof (cases "install_multicast_tree env f ls")
  case (Inl e)
  then show ?thesis by (simp add: commit_tree_def get_flow_add_flow)
next
  case (Inr r)
  then show ?thesis
    using install_keeps_route [OF Inr] by (simp add: commit_tree_def get_flow_add_flow)
qed

lemma get_subscribers_commit_tree:
  "get_subscribers (snd (commit_tree env db topic f ls)) t = get_subscribers db t"
  by (simp add: commit_tree_def get_subscribers_add_flow split: sum.splits)

lemma add_unique_mem: "x \<in> set (add_unique x xs)"
  by (simp add: add_unique_def)

lemma calculate_path_cases:
  "calculate_path nx links s dsts =
     (let G = build_graph links; valid = filter (has_node G) dsts in
      if \<not> has_node G s \<or> valid = [] then Inr []
      else if length valid = 1
      then (case dijkstra_path nx G s (hd valid) of
              Inl NetworkXNoPath \<Rightarrow> Inr []
            | Inl e \<Rightarrow> Inl e
            | Inr path_nodes \<Rightarrow> Inr (nodes_to_links G path_nodes))
      else (case steiner_tree nx G (s # valid) of
              Inr st_edges \<Rightarrow> Inr (tree_links G st_edges)
            | Inl e \<Rightarrow> Inr (fallback_loop nx G s valid [])))"
proof (cases "filter (has_node (build_graph links)) dsts")
  case Nil
  then show ?thesis by (simp add: calculate_path_def Let_def)
next
  case (Cons d rest)
  note valid = Cons
  show ?thesis
  proof (cases rest)
    case Nil
    show ?thesis
      unfolding calculate_path_def Let_def valid Nil by simp
  next
    case (Cons d' ds)
    show ?thesis
      unfolding calculate_path_def Let_def valid Cons by simp
  qed
qed

lemma handle_new_subscriber_flow:
  assumes flow: "get_flow db topic = Some f"
  shows "\<exists>f'. get_flow (snd (handle_new_subscriber env db topic sub)) topic = Some f'
      \<and> sub \<in> set (get_subscribers (snd (handle_new_subscriber env db topic sub)) topic)
      \<and> dst_ips f' = add_unique sub (dst_ips f)
      \<and> (case calculate_path (env_nx env) (map snd (db_links db)) (src_ip f)
                 (add_unique sub (dst_ips f)) of
            Inr ls \<Rightarrow> route_links f' = ls
          | Inl e \<Rightarrow> route_links f' = route_links f
                    \<and> fst (handle_new_subscriber env db topic sub) = Some (NetworkX e))"
proof -
  let ?db1 = "add_subscriber db topic sub"
  let ?f1 = "f\<lparr>dst_ips := add_unique sub (dst_ips f)\<rparr>"
  let ?cp = "calculate_path (env_nx env) (map snd (db_links db)) (src_ip f)
               (add_unique sub (dst_ips f))"
  have f1: "get_flow ?db1 topic = Some ?f1"
    using flow by (rule get_flow_add_subscriber)
  have sub1: "sub \<in> set (get_subscribers ?db1 topic)"
    by (rule get_subscribers_add_subscriber)
  show ?thesis
  proof (cases ?cp)
    case (Inl e)
    then have "handle_new_subscriber env db topic sub = (Some (NetworkX e), ?db1)"
      using f1 by (simp add: handle_new_subscriber_def Let_def db_links_add_subscriber)
    then show ?thesis
      using f1 sub1 Inl by simp
  next
    case (Inr new_links)
    let ?f2 = "?f1\<lparr>route_links := new_links\<rparr>"
    have res: "snd (handle_new_subscriber env db topic sub)
        = snd (commit_tree env (add_flow ?db1 topic ?f2) topic ?f2 new_links)"
      using f1 Inr by (simp add: handle_new_subscriber_def Let_def db_links_add_subscriber)
    obtain f' where f': "get_flow (snd (commit_tree env (add_flow ?db1 topic ?f2) topic ?f2 new_links))
          topic = Some f'"
        "route_links f' = route_links ?f2" "dst_ips f' = dst_ips ?f2"
      using commit_tree_flow [of env ?db1 topic ?f2 new_links] by blast
    have "sub \<in> set (get_subscribers (snd (handle_new_subscriber env db topic sub)) topic)"
      using sub1 by (simp add: res get_subscribers_commit_tree get_subscribers_add_flow)
    then show ?thesis
      using f' Inr by (simp add: res)
  qed
qed

text \<open>
  Claim C3, as amended. For a topic with a flow in the registry,
  \<^verbatim>\<open>handle_new_subscriber\<close> leaves the subscriber among the topic's subscribers and
  among the flow's destinations (this much is the registry's doing), and it computes the
  route again from the destinations that are nodes of the link graph; the subscriber is
  one of them only if it is a node. The new route is empty when the source is not a
  node or no destination is; with one destination in the graph it is the cheapest path
  to it, empty when there is none, and the old route stays when the search raises
  anything else; with two or more it is the tree of the Steiner approximation over the
  source and these destinations, and the union of the cheapest paths when the
  approximation raises.
\<close>

theorem handle_new_subscriber_graft:
  assumes flow: "get_flow db topic = Some f"
  shows "let G = build_graph (map snd (db_links db));
             nx = env_nx env;
             valid = filter (has_node G) (add_unique sub (dst_ips f));
             r = handle_new_subscriber env db topic sub
         in \<exists>f'. get_flow (snd r) topic = Some f'
              \<and> sub \<in> set (get_subscribers (snd r) topic)
              \<and> dst_ips f' = add_unique sub (dst_ips f)
              \<and> (sub \<in> set valid) = has_node G sub
              \<and> (\<not> has_node G (src_ip f) \<or> valid = [] \<longrightarrow> route_links f' = [])
              \<and> (has_node G (src_ip f) \<and> length valid = 1 \<longrightarrow>
                   (case dijkstra_path nx G (src_ip f) (hd valid) of
                      Inr p \<Rightarrow> route_links f' = nodes_to_links G p
                    | Inl NetworkXNoPath \<Rightarrow> route_links f' = []
                    | Inl e \<Rightarrow> route_links f' = route_links f \<and> fst r = Some (NetworkX e)))
              \<and> (has_node G (src_ip f) \<and> 2 \<le> length valid \<longrightarrow>
                   route_links f' =
                     (case steiner_tree nx G (src_ip f # valid) of
                        Inr es \<Rightarrow> tree_links G es
                      | Inl e \<Rightarrow> fallback_loop nx G (src_ip f) valid []))"
proof -
  let ?G = "build_graph (map snd (db_links db))"
  let ?valid = "filter (has_node ?G) (add_unique sub (dst_ips f))"
  let ?r = "handle_new_subscriber env db topic sub"
  let ?cp = "calculate_path (env_nx env) (map snd (db_links db)) (src_ip f)
               (add_unique sub (dst_ips f))"
  obtain f' where f':
    "get_flow (snd ?r) topic = Some f'"
    "sub \<in> set (get_subscribers (snd ?r) topic)"
    "dst_ips f' = add_unique sub (dst_ips f)"
    "case ?cp of Inr ls \<Rightarrow> route_links f' = ls
     | Inl e \<Rightarrow> route_links f' = route_links f \<and> fst ?r = Some (NetworkX e)"
    using handle_new_subscriber_flow [OF flow, of env sub] by blast
  have mem: "(sub \<in> set ?valid) = has_node ?G sub"
    by (simp add: add_unique_mem)
  have r0: "route_links f' = []" if "\<not> has_node ?G (src_ip f) \<or> ?valid = []"
  proof -
    have "?cp = Inr []"
      using that unfolding calculate_path_cases Let_def by (simp only: if_True)
    then show ?thesis using f'(4) by simp
  qed
  have r1: "case dijkstra_path (env_nx env) ?G (src_ip f) (hd ?valid) of
              Inr p \<Rightarrow> route_links f' = nodes_to_links ?G p
            | Inl NetworkXNoPath \<Rightarrow> route_links f' = []
            | Inl e \<Rightarrow> route_links f' = route_links f \<and> fst ?r = Some (NetworkX e)"
    if "has_node ?G (src_ip f) \<and> length ?valid = 1"
  proof -
    have ne: "?valid \<noteq> []"
      using that by auto
    have "?cp = (case dijkstra_path (env_nx env) ?G (src_ip f) (hd ?valid) of
              Inl NetworkXNoPath \<Rightarrow> Inr []
            | Inl e \<Rightarrow> Inl e
            | Inr path_nodes \<Rightarrow> Inr (nodes_to_links ?G path_nodes))"
      using that ne unfolding calculate_path_cases Let_def by simp
    then show ?thesis
      using f'(4) by (auto split: sum.splits nx_exception.splits)
  qed
  have r2: "route_links f' =
              (case steiner_tree (env_nx env) ?G (src_ip f # ?valid) of
                 Inr es \<Rightarrow> tree_links ?G es
               | Inl e \<Rightarrow> fallback_loop (env_nx env) ?G (src_ip f) ?valid [])"
    if "has_node ?G (src_ip f) \<and> 2 \<le> length ?valid"
  proof -
    have ne: "?valid \<noteq> []" "length ?valid \<noteq> 1"
      using that by auto
    have "?cp = (case steiner_tree (env_nx env) ?G (src_ip f # ?valid) of
              Inr st_edges \<Rightarrow> Inr (tree_links ?G st_edges)
            | Inl e \<Rightarrow> Inr (fallback_loop (env_nx env) ?G (src_ip f) ?valid []))"
      using that ne unfolding calculate_path_cases Let_def by simp
    then show ?thesis
      using f'(4) by (auto split: sum.splits)
  qed
  show ?thesis
    unfolding Let_def using f'(1,2,3) mem r0 r1 r2 by blast
qed

lemma db_tri_D_flow: "get_flow db_tri_D ''topic/D'' = Some flow_D"
  by code_simp

lemma db_tri_D_graph:
  "has_node (build_graph (map snd (db_links db_tri_D))) (src_ip flow_D)"
  "filter (has_node (build_graph (map snd (db_links db_tri_D)))) [''2'', ''3''] = [''2'', ''3'']"
  "steiner_tree (env_nx env_reference) (build_graph (map snd (db_links db_tri_D)))
     (src_ip flow_D # [''2'', ''3'']) = Inr [(''1'', ''2''), (''1'', ''3'')]"
  "tree_links (build_graph (map snd (db_links db_tri_D))) [(''1'', ''2''), (''1'', ''3'')]
     = [mk_link ''1'' ''2'' 1 5, mk_link ''1'' ''3'' 2 5]"
  "add_unique ''3'' (dst_ips flow_D) = [''2'', ''3'']"
  by code_simp+

lemma db_tri_D_again:
  "filter (has_node (build_graph (map snd (db_links db_tri_D)))) [''2''] = [''2'']"
  "dijkstra_path (env_nx env_reference) (build_graph (map snd (db_links db_tri_D)))
     (src_ip flow_D) ''2'' = Inr [''1'', ''2'']"
  "nodes_to_links (build_graph (map snd (db_links db_tri_D))) [''1'', ''2'']
     = [mk_link ''1'' ''2'' 1 5]"
  "add_unique ''2'' (dst_ips flow_D) = [''2'']"
  by code_simp+

lemma db_no_link_flow:
  "get_flow db_no_link ''topic/D'' = Some flow_D"
  "\<not> has_node (build_graph (map snd (db_links db_no_link))) (src_ip flow_D)"
  by code_simp+

text \<open>
  On the triangle flow D runs from switch 1 to switch 2. When switch 3 joins, both
  destinations are nodes of the graph and the route becomes the tree with the two links
  out of switch 1. When switch 2 joins once more, it stays the one destination and the
  route is the cheapest path to it. In a registry without links the source is no node
  of the graph and the route becomes empty.
\<close>

theorem handle_new_subscriber_graft_witness:
  "(\<exists>f'. get_flow (snd (handle_new_subscriber env_reference db_tri_D ''topic/D'' ''3''))
           ''topic/D'' = Some f'
      \<and> ''3'' \<in> set (get_subscribers
                       (snd (handle_new_subscriber env_reference db_tri_D ''topic/D'' ''3''))
                       ''topic/D'')
      \<and> dst_ips f' = [''2'', ''3'']
      \<and> route_links f' = [mk_link ''1'' ''2'' 1 5, mk_link ''1'' ''3'' 2 5])
   \<and> (\<exists>f'. get_flow (snd (handle_new_subscriber env_reference db_tri_D ''topic/D'' ''2''))
           ''topic/D'' = Some f'
      \<and> dst_ips f' = [''2'']
      \<and> route_links f' = [mk_link ''1'' ''2'' 1 5])
   \<and> (\<exists>f'. get_flow (snd (handle_new_subscriber env_reference db_no_link ''topic/D'' ''3''))
           ''topic/D'' = Some f'
      \<and> route_links f' = [])"
proof (intro conjI)
  show "\<exists>f'. get_flow (snd (handle_new_subscriber env_reference db_tri_D ''topic/D'' ''3''))
           ''topic/D'' = Some f'
      \<and> ''3'' \<in> set (get_subscribers
                       (snd (handle_new_subscriber env_reference db_tri_D ''topic/D'' ''3''))
                       ''topic/D'')
      \<and> dst_ips f' = [''2'', ''3'']
      \<and> route_links f' = [mk_link ''1'' ''2'' 1 5, mk_link ''1'' ''3'' 2 5]"
    using handle_new_subscriber_graft [OF db_tri_D_flow, of env_reference "''3''"]
    unfolding Let_def db_tri_D_graph(5) db_tri_D_graph(2)
    by (auto simp add: db_tri_D_graph(1,3,4) simp del: tree_links.simps)
  show "\<exists>f'. get_flow (snd (handle_new_subscriber env_reference db_tri_D ''topic/D'' ''2''))
           ''topic/D'' = Some f'
      \<and> dst_ips f' = [''2'']
      \<and> route_links f' = [mk_link ''1'' ''2'' 1 5]"
    using handle_new_subscriber_graft [OF db_tri_D_flow, of env_reference "''2''"]
    unfolding Let_def db_tri_D_again(4) db_tri_D_again(1)
    by (auto simp add: db_tri_D_graph(1) db_tri_D_again(2,3))
  show "\<exists>f'. get_flow (snd (handle_new_subscriber env_reference db_no_link ''topic/D'' ''3''))
           ''topic/D'' = Some f'
      \<and> route_links f' = []"
    using handle_new_subscriber_graft [OF db_no_link_flow(1), of env_reference "''3''"]
      db_no_link_flow(2)
    unfolding Let_def by blast
qed

text \<open>
  The claim as it stands fails for a subscriber that is not a node of the link graph,
  and the graph's nodes are switches while subscribers are hosts. When
  \<^verbatim>\<open>10.0.0.3\<close> joins flow D on the triangle it becomes a destination of the flow, the
  call returns, and the route is still the one link to switch 2: it is the cheapest path
  to the one destination in the graph, no tree over the destinations, and it does not
  reach the subscriber.
\<close>

theorem handle_new_subscriber_counterexample:
  "get_flow db_tri_D ''topic/D'' = Some flow_D
   \<and> fst (handle_new_subscriber env_reference db_tri_D ''topic/D'' ''10.0.0.3'') = None
   \<and> map_option (\<lambda>f. (dst_ips f, route_links f))
       (get_flow (snd (handle_new_subscriber env_reference db_tri_D ''topic/D'' ''10.0.0.3''))
          ''topic/D'')
     = Some ([''2'', ''10.0.0.3''], [mk_link ''1'' ''2'' 1 5])
   \<and> list_all (\<lambda>l. src l \<noteq> ''10.0.0.3'' \<and> dst l \<noteq> ''10.0.0.3'') [mk_link ''1'' ''2'' 1 5]"
  by code_simp

section \<open>Properties of the holistic iteration\<close>


























end
